theory Spec2Isabelle
  imports Main "HOL-Library.Sublist" "HOL-Library.Char_ord" "HOL-Library.List_Lexorder"
begin

section \<open>File operations of the agent workspace (autogpt/commands/file\_operations.py)\<close>

text \<open>
  Python strings are modelled as \<open>string\<close> (lists of characters), Python's unbounded
  integers as \<open>int\<close>. \<open>s.startswith(t)\<close> is \<open>prefix t s\<close>, \<open>s.endswith(t)\<close> is
  \<open>suffix t s\<close> and \<open>t in s\<close> is \<open>sublist t s\<close> (a contiguous occurrence).
  An exception is a value of type \<open>exn\<close>; \<open>str_exn\<close> is Python's \<open>str(e)\<close>.
\<close>

datatype exn =
    ValueError string
  | IndexError
  | FileNotFoundError string
  | IsADirectoryError string
  | NotADirectoryError string
  | FileExistsError string
  | TypeError string
  | RecursionError
  | NameError string

text \<open>A text between single quotes, as the messages show names and paths.\<close>

definition quoted :: "string \<Rightarrow> string" where
  "quoted s = [CHR 0x27] @ s @ [CHR 0x27]"

fun str_exn :: "exn \<Rightarrow> string" where
  "str_exn (ValueError msg) = msg"
| "str_exn IndexError = ''string index out of range''"
| "str_exn (FileNotFoundError p) = ''[Errno 2] No such file or directory: '' @ quoted p"
| "str_exn (IsADirectoryError p) = ''[Errno 21] Is a directory: '' @ quoted p"
| "str_exn (NotADirectoryError p) = ''[Errno 20] Not a directory: '' @ quoted p"
| "str_exn (FileExistsError p) = ''[Errno 17] File exists: '' @ quoted p"
| "str_exn (TypeError msg) = msg"
| "str_exn RecursionError = ''maximum recursion depth exceeded''"
| "str_exn (NameError n) = ''name '' @ quoted n @ '' is not defined''"

subsection \<open>The path functions of Python's \<open>os.path\<close> that \<open>safe_join\<close> calls\<close>

text \<open>
  \<open>os.path.join\<close>, \<open>os.path.normpath\<close>, \<open>os.path.commonprefix\<close> and
  \<open>os.path.dirname\<close> belong to Python's standard library, not to the repository. They
  are written out here as the POSIX implementation (\<open>posixpath\<close>) has them, statement by
  statement, so that \<open>safe_join\<close> can be run on concrete paths.
\<close>

text \<open>\<open>s.split(sep)\<close> for a one-character separator.\<close>

fun split_on :: "char \<Rightarrow> string \<Rightarrow> string list" where
  "split_on sep [] = [[]]"
| "split_on sep (c # cs) =
     (if c = sep then [] # split_on sep cs
      else (case split_on sep cs of
              [] \<Rightarrow> [[c]]
            | w # ws \<Rightarrow> (c # w) # ws))"

text \<open>\<open>sep.join(comps)\<close>.\<close>

fun join_with :: "string \<Rightarrow> string list \<Rightarrow> string" where
  "join_with sep [] = []"
| "join_with sep [w] = w"
| "join_with sep (w # ws) = w @ sep @ join_with sep ws"

text \<open>
  \<open>posixpath.join(a, *p)\<close>: the loop over the segments \<open>p\<close>, the variable \<open>path\<close>
  being the accumulator.
\<close>

fun join_loop :: "string \<Rightarrow> string list \<Rightarrow> string" where
  "join_loop path [] = path"
| "join_loop path (b # p) =
     join_loop
       (if prefix ''/'' b then b
        else if path = [] \<or> suffix ''/'' path then path @ b
        else path @ ''/'' @ b) p"

definition os_path_join :: "string \<Rightarrow> string list \<Rightarrow> string" where
  "os_path_join a p = join_loop a p"

text \<open>
  \<open>posixpath.normpath(path)\<close>: the loop over the components builds \<open>new_comps\<close>;
  \<open>initial_slashes\<close> is 0, 1 or 2.
\<close>

fun normpath_loop :: "nat \<Rightarrow> string list \<Rightarrow> string list \<Rightarrow> string list" where
  "normpath_loop initial_slashes new_comps [] = new_comps"
| "normpath_loop initial_slashes new_comps (component # comps) =
     (if component = [] \<or> component = ''.'' then normpath_loop initial_slashes new_comps comps
      else if component \<noteq> ''..'' \<or> (initial_slashes = 0 \<and> new_comps = [])
                \<or> (new_comps \<noteq> [] \<and> last new_comps = ''..'')
           then normpath_loop initial_slashes (new_comps @ [component]) comps
      else if new_comps \<noteq> [] then normpath_loop initial_slashes (butlast new_comps) comps
      else normpath_loop initial_slashes new_comps comps)"

definition os_path_normpath :: "string \<Rightarrow> string" where
  "os_path_normpath path =
     (if path = [] then ''.''
      else
        let initial_slashes =
              (if prefix ''/'' path
               then (if prefix ''//'' path \<and> \<not> prefix ''///'' path then 2 else 1)
               else (0::nat));
            comps = normpath_loop initial_slashes [] (split_on CHR ''/'' path);
            path1 = join_with ''/'' comps;
            path2 = (if initial_slashes \<noteq> 0
                     then replicate initial_slashes CHR ''/'' @ path1 else path1)
        in if path2 = [] then ''.'' else path2)"

text \<open>
  \<open>os.path.commonprefix(m)\<close>: \<open>s1 = min(m)\<close>, \<open>s2 = max(m)\<close> in the order of Python's
  strings (lexicographic on the characters), then the loop
  \<open>for i, c in enumerate(s1): if c != s2[i]: return s1[:i]\<close> and \<open>return s1\<close> after it.
  Reading \<open>s2[i]\<close> beyond the end of \<open>s2\<close> would raise \<open>IndexError\<close>.
\<close>

fun commonprefix_loop :: "string \<Rightarrow> string \<Rightarrow> exn + string" where
  "commonprefix_loop [] s2 = Inr []"
| "commonprefix_loop (c # s1) [] = Inl IndexError"
| "commonprefix_loop (c # s1) (d # s2) =
     (if c \<noteq> d then Inr []
      else (case commonprefix_loop s1 s2 of
              Inl e \<Rightarrow> Inl e
            | Inr r \<Rightarrow> Inr (c # r)))"

definition os_path_commonprefix :: "string list \<Rightarrow> exn + string" where
  "os_path_commonprefix m =
     (if m = [] then Inr []
      else commonprefix_loop (fold min (tl m) (hd m)) (fold max (tl m) (hd m)))"

text \<open>\<open>posixpath.dirname(p)\<close>: the part before the last slash, without its trailing
  slashes unless it consists of slashes only.\<close>

definition os_path_dirname :: "string \<Rightarrow> string" where
  "os_path_dirname p =
     (let head = rev (dropWhile (\<lambda>c. c \<noteq> CHR ''/'') (rev p))
      in if head \<noteq> [] \<and> head \<noteq> replicate (length head) CHR ''/''
         then rev (dropWhile (\<lambda>c. c = CHR ''/'') (rev head))
         else head)"

subsection \<open>\<open>safe_join\<close>\<close>

text \<open>
  \<open>safe_join(base, *paths)\<close> joins, normalises and compares the common prefix of
  \<open>base\<close> and the normalised path with \<open>base\<close>; it raises \<open>ValueError\<close> when they
  differ and returns the normalised path otherwise. It reads and writes no state.
\<close>

definition safe_join :: "string \<Rightarrow> string list \<Rightarrow> exn + string" where
  "safe_join base paths =
     (let new_path = os_path_join base paths;
          norm_new_path = os_path_normpath new_path
      in case os_path_commonprefix [base, norm_new_path] of
           Inl e \<Rightarrow> Inl e
         | Inr cp \<Rightarrow>
             if cp \<noteq> base
             then Inl (ValueError ''Attempted to access outside of working directory.'')
             else Inr norm_new_path)"

subsection \<open>\<open>split_file\<close>\<close>

text \<open>
  A Python slice \<open>xs[i:j]\<close> with integer bounds: a negative bound counts from the end,
  and both are clamped to the list.
\<close>

definition py_slice :: "'a list \<Rightarrow> int \<Rightarrow> int \<Rightarrow> 'a list" where
  "py_slice xs i j =
     (let n = int (length xs);
          lo = (if i < 0 then max (i + n) 0 else min i n);
          hi = (if j < 0 then max (j + n) 0 else min j n)
      in take (nat (hi - lo)) (drop (nat lo) xs))"

text \<open>The chunk that one pass through the body of the \<open>while\<close> loop yields.\<close>

definition split_file_chunk :: "string \<Rightarrow> int \<Rightarrow> int \<Rightarrow> int \<Rightarrow> string" where
  "split_file_chunk content max_length overlap start =
     (let content_length = int (length content);
          end' = start + max_length
      in if end' + overlap < content_length
         then py_slice content start (end' + overlap)
         else py_slice content start content_length)"

text \<open>
  \<open>split_file\<close> is a generator. \<open>split_file_from\<close> is the list of everything the loop
  yields from the value \<open>start\<close> on, as \<open>list(split_file(...))\<close> in \<open>ingest_file\<close>
  collects it; it is \<open>None\<close> when the loop never exits. \<open>split_file_take n\<close> is the
  list of the first \<open>n\<close> chunks that a consumer draws from the generator.
\<close>

partial_function (option) split_file_from ::
  "string \<Rightarrow> int \<Rightarrow> int \<Rightarrow> int \<Rightarrow> string list option" where
  "split_file_from content max_length overlap start =
     (if start < int (length content)
      then Option.bind
             (split_file_from content max_length overlap (start + (max_length - overlap)))
             (\<lambda>rest. Some (split_file_chunk content max_length overlap start # rest))
      else Some [])"

declare split_file_from.simps [code]

definition split_file :: "string \<Rightarrow> int \<Rightarrow> int \<Rightarrow> string list option" where
  "split_file content max_length overlap = split_file_from content max_length overlap 0"

fun split_file_take_from :: "nat \<Rightarrow> string \<Rightarrow> int \<Rightarrow> int \<Rightarrow> int \<Rightarrow> string list" where
  "split_file_take_from 0 content max_length overlap start = []"
| "split_file_take_from (Suc n) content max_length overlap start =
     (if start < int (length content)
      then split_file_chunk content max_length overlap start
             # split_file_take_from n content max_length overlap (start + (max_length - overlap))
      else [])"

definition split_file_take :: "nat \<Rightarrow> string \<Rightarrow> int \<Rightarrow> int \<Rightarrow> string list" where
  "split_file_take n content max_length overlap =
     split_file_take_from n content max_length overlap 0"

subsection \<open>The files of the workspace\<close>

text \<open>
  The state the functions work on is the file system. A path names a file with the text
  stored in it, a directory, or nothing. \<open>history\<close> records every mutation in the
  order in which it was made; no function reads it. All files are opened in text mode:
  a write stores the text as it is (the line separator of POSIX is the line feed), and a
  read hands the stored text over with every carriage return followed by a line feed,
  and every other carriage return, turned into one line feed (\<open>universal_newlines\<close>).
  Encodings and permissions are not modelled: opening fails only when the path is a
  directory or, for a new file, when its directory is missing or is a file.
\<close>

datatype node = File string | Dir

datatype fs_event =
    Wrote string string
  | Appended string string
  | MadeDirs string

record filesystem =
  entries :: "string \<rightharpoonup> node"
  history :: "fs_event list"

definition os_path_exists :: "filesystem \<Rightarrow> string \<Rightarrow> bool" where
  "os_path_exists fs p = (entries fs p \<noteq> None)"

definition os_path_isfile :: "filesystem \<Rightarrow> string \<Rightarrow> bool" where
  "os_path_isfile fs p = (case entries fs p of Some (File c) \<Rightarrow> True | _ \<Rightarrow> False)"

fun universal_newlines :: "string \<Rightarrow> string" where
  "universal_newlines [] = []"
| "universal_newlines [c] = (if c = CHR 0x0D then [CHR 0x0A] else [c])"
| "universal_newlines (c # d # cs) =
     (if c = CHR 0x0D
      then (if d = CHR 0x0A then CHR 0x0A # universal_newlines cs
            else CHR 0x0A # universal_newlines (d # cs))
      else c # universal_newlines (d # cs))"

text \<open>\<open>with open(p, "r") as f: f.read()\<close>.\<close>

definition open_read :: "filesystem \<Rightarrow> string \<Rightarrow> exn + string" where
  "open_read fs p =
     (case entries fs p of
        Some (File c) \<Rightarrow> Inr (universal_newlines c)
      | Some Dir \<Rightarrow> Inl (IsADirectoryError p)
      | None \<Rightarrow> Inl (FileNotFoundError p))"

text \<open>\<open>with open(p, "w") as f: f.write(text)\<close>: the file is created or truncated.\<close>

definition open_write :: "filesystem \<Rightarrow> string \<Rightarrow> string \<Rightarrow> exn + filesystem" where
  "open_write fs p text =
     (case entries fs p of
        Some Dir \<Rightarrow> Inl (IsADirectoryError p)
      | Some (File c) \<Rightarrow>
          Inr (fs\<lparr>entries := (entries fs)(p \<mapsto> File text),
                  history := history fs @ [Wrote p text]\<rparr>)
      | None \<Rightarrow>
          (case entries fs (os_path_dirname p) of
             Some Dir \<Rightarrow>
               Inr (fs\<lparr>entries := (entries fs)(p \<mapsto> File text),
                       history := history fs @ [Wrote p text]\<rparr>)
           | Some (File c) \<Rightarrow> Inl (NotADirectoryError p)
           | None \<Rightarrow> Inl (FileNotFoundError p)))"

text \<open>\<open>with open(p, "a") as f: f.write(text)\<close>: the file is created when absent.\<close>

definition open_append :: "filesystem \<Rightarrow> string \<Rightarrow> string \<Rightarrow> exn + filesystem" where
  "open_append fs p text =
     (case entries fs p of
        Some Dir \<Rightarrow> Inl (IsADirectoryError p)
      | Some (File c) \<Rightarrow>
          Inr (fs\<lparr>entries := (entries fs)(p \<mapsto> File (c @ text)),
                  history := history fs @ [Appended p text]\<rparr>)
      | None \<Rightarrow>
          (case entries fs (os_path_dirname p) of
             Some Dir \<Rightarrow>
               Inr (fs\<lparr>entries := (entries fs)(p \<mapsto> File text),
                       history := history fs @ [Appended p text]\<rparr>)
           | Some (File c) \<Rightarrow> Inl (NotADirectoryError p)
           | None \<Rightarrow> Inl (FileNotFoundError p)))"



subsection \<open>The operation log, \<open>read_file\<close>, \<open>write_to_file\<close> and \<open>append_to_file\<close>\<close>

text \<open>
  \<open>WORKING_DIRECTORY\<close> is computed once, when the module is imported, from the current
  directory of the process; every function below takes its value as the argument \<open>wd\<close>.
  \<open>LOG_FILE_PATH\<close> is \<open>WORKING_DIRECTORY / LOG_FILE\<close>.
\<close>

definition LOG_FILE :: string where
  "LOG_FILE = ''file_logger.txt''"

definition LOG_FILE_PATH :: "string \<Rightarrow> string" where
  "LOG_FILE_PATH wd = wd @ ''/'' @ LOG_FILE"



text \<open>
  \<open>log_operation\<close> calls \<open>append_to_file(LOG_FILE, log_entry)\<close>, and \<open>append_to_file\<close>
  calls \<open>log_operation("append", filename)\<close> after every write: the two functions call
  each other without end. What ends the descent in Python is the interpreter's recursion
  limit: the call that exceeds it raises \<open>RecursionError\<close>, which is an \<open>Exception\<close>
  and is therefore caught by the \<open>except Exception\<close> of the innermost \<open>append_to_file\<close>
  that has entered its \<open>try\<close>. The argument \<open>depth\<close> is the number of nested calls of
  these two functions that still fit under the limit; a call with \<open>depth = 0\<close> raises
  \<open>RecursionError\<close> in its caller. The calls of library functions are taken to fit.
  A function returns the new file system and either the exception it raises (\<open>Inl\<close>)
  or its value (\<open>Inr\<close>).
\<close>

fun log_operation ::
      "nat \<Rightarrow> string \<Rightarrow> filesystem \<Rightarrow> string \<Rightarrow> string \<Rightarrow> filesystem \<times> (exn + unit)"
  and append_to_file ::
      "nat \<Rightarrow> string \<Rightarrow> filesystem \<Rightarrow> string \<Rightarrow> string \<Rightarrow> filesystem \<times> (exn + string)"
where
  "log_operation 0 wd fs operation filename = (fs, Inl RecursionError)"
| "log_operation (Suc depth) wd fs operation filename =
     (let log_entry = operation @ '': '' @ filename @ ''\<newline>''
      in case (if \<not> os_path_exists fs (LOG_FILE_PATH wd)
               then open_write fs (LOG_FILE_PATH wd) ''File Operation Logger ''
               else Inr fs) of
           Inl e \<Rightarrow> (fs, Inl e)
         | Inr fs1 \<Rightarrow>
             (case append_to_file depth wd fs1 LOG_FILE log_entry of
                (fs2, Inl e) \<Rightarrow> (fs2, Inl e)
              | (fs2, Inr r) \<Rightarrow> (fs2, Inr ())))"
| "append_to_file 0 wd fs filename text = (fs, Inl RecursionError)"
| "append_to_file (Suc depth) wd fs filename text =
     (case safe_join wd [filename] of
        Inl e \<Rightarrow> (fs, Inr (''Error: '' @ str_exn e))
      | Inr filepath \<Rightarrow>
          (case open_append fs filepath text of
             Inl e \<Rightarrow> (fs, Inr (''Error: '' @ str_exn e))
           | Inr fs1 \<Rightarrow>
               (case log_operation depth wd fs1 ''append'' filename of
                  (fs2, Inl e) \<Rightarrow> (fs2, Inr (''Error: '' @ str_exn e))
                | (fs2, Inr u) \<Rightarrow> (fs2, Inr ''Text appended successfully.''))))"


subsection \<open>\<open>edit_line\<close>\<close>

text \<open>Python's \<open>str(n)\<close> for an integer, in decimal.\<close>

function str_nat :: "nat \<Rightarrow> string" where
  "str_nat n =
     (if n < 10 then [char_of (48 + n)]
      else str_nat (n div 10) @ [char_of (48 + n mod 10)])"
  by pat_completeness auto
termination
  by (relation "measure id") auto

definition str_int :: "int \<Rightarrow> string" where
  "str_int i = (if i < 0 then ''-'' @ str_nat (nat (- i)) else str_nat (nat i))"

text \<open>
  Python's \<open>int(s)\<close> on a string of ASCII characters: surrounding white space (the
  space and the characters 9 to 13) is dropped, a sign may come first, and the digits may
  be separated by single underscores. \<open>None\<close> stands for the \<open>ValueError\<close> that
  \<open>int\<close> raises on anything else, also on more than 4300 digits (the interpreter's
  default limit for the conversion).
\<close>

definition is_space :: "char \<Rightarrow> bool" where
  "is_space c = (c \<in> set [CHR '' '', CHR 0x09, CHR 0x0A, CHR 0x0B, CHR 0x0C, CHR 0x0D])"

definition is_digit :: "char \<Rightarrow> bool" where
  "is_digit c = (CHR ''0'' \<le> c \<and> c \<le> CHR ''9'')"

definition digit_val :: "char \<Rightarrow> nat" where
  "digit_val c = of_char c - 48"

definition strip :: "string \<Rightarrow> string" where
  "strip s = rev (dropWhile is_space (rev (dropWhile is_space s)))"

fun digits_value_from :: "nat \<Rightarrow> string \<Rightarrow> nat option" where
  "digits_value_from acc [] = Some acc"
| "digits_value_from acc [c] =
     (if is_digit c then Some (10 * acc + digit_val c) else None)"
| "digits_value_from acc (c # d # cs) =
     (if is_digit c then digits_value_from (10 * acc + digit_val c) (d # cs)
      else if c = CHR ''_'' \<and> is_digit d then digits_value_from (10 * acc + digit_val d) cs
      else None)"

definition digits_value :: "string \<Rightarrow> nat option" where
  "digits_value s =
     (case s of
        [] \<Rightarrow> None
      | c # cs \<Rightarrow>
          if 4300 < length (filter is_digit s) then None
          else if is_digit c then digits_value_from (digit_val c) cs
          else None)"

definition py_int :: "string \<Rightarrow> int option" where
  "py_int s =
     (let t = strip s
      in case t of
           [] \<Rightarrow> None
         | c # cs \<Rightarrow>
             if c = CHR ''-'' then map_option (\<lambda>n. - int n) (digits_value cs)
             else if c = CHR ''+'' then map_option int (digits_value cs)
             else map_option int (digits_value t))"

text \<open>
  The \<open>try\<close> block that turns the argument \<open>line_numbers\<close> into a list of integers;
  \<open>None\<close> is the \<open>ValueError\<close> branch.
\<close>

definition parse_line_numbers :: "string \<Rightarrow> int list option" where
  "parse_line_numbers line_numbers =
     (if sublist '','' line_numbers
      then those (map py_int (split_on CHR '','' line_numbers))
      else map_option (\<lambda>i. [i]) (py_int line_numbers))"

text \<open>
  \<open>f.readlines()\<close> on the text that a read hands over: its lines, each with the line
  feed that ends it.
\<close>

fun readlines :: "string \<Rightarrow> string list" where
  "readlines [] = []"
| "readlines (c # cs) =
     (if c = CHR ''\<newline>'' then [c] # readlines cs
      else (case readlines cs of
              [] \<Rightarrow> [[c]]
            | l # ls \<Rightarrow> (c # l) # ls))"

text \<open>
  \<open>s.replace(old, new)\<close>: every occurrence of \<open>old\<close> is replaced, from the left, the
  search going on behind each replaced occurrence. An empty \<open>old\<close> matches before every
  character and at the end.
\<close>

function str_replace :: "string \<Rightarrow> string \<Rightarrow> string \<Rightarrow> string" where
  "str_replace old new s =
     (if old = [] then new @ concat (map (\<lambda>c. c # new) s)
      else if s = [] then []
      else if prefix old s then new @ str_replace old new (drop (length old) s)
      else hd s # str_replace old new (tl s))"
  by pat_completeness auto
termination
  by (relation "measure (\<lambda>(old, new, s). length s)") auto

declare str_replace.simps [simp del]

text \<open>\<open>s.capitalize()\<close> on ASCII letters.\<close>

definition ascii_upper :: "char \<Rightarrow> char" where
  "ascii_upper c =
     (if CHR ''a'' \<le> c \<and> c \<le> CHR ''z'' then char_of (of_char c - (32::nat)) else c)"

definition ascii_lower :: "char \<Rightarrow> char" where
  "ascii_lower c =
     (if CHR ''A'' \<le> c \<and> c \<le> CHR ''Z'' then char_of (of_char c + (32::nat)) else c)"

definition capitalize :: "string \<Rightarrow> string" where
  "capitalize s = (case s of [] \<Rightarrow> [] | c # cs \<Rightarrow> ascii_upper c # map ascii_lower cs)"

text \<open>
  The argument \<open>line_numbers\<close> is documented as "int or list", and the function accepts
  a string only.
\<close>

datatype line_numbers_arg = LineStr string | LineInt int | LineList "int list"

definition actions :: "string list" where
  "actions = [''add'', ''insert'', ''modify'', ''replace'', ''delete'']"

text \<open>
  The \<open>for\<close> loop over the line numbers. An iteration goes on with the changed lines,
  returns an error message from \<open>edit_line\<close>, or raises.
\<close>

datatype loop_result = Completed "string list" | Returned string | Raised exn

fun edit_loop ::
  "string \<Rightarrow> string option \<Rightarrow> string option \<Rightarrow> string list \<Rightarrow> int list \<Rightarrow> loop_result" where
  "edit_loop action old_text new_text lines [] = Completed lines"
| "edit_loop action old_text new_text lines (line_number # line_numbers) =
     (if line_number < 1 \<or> line_number > int (length lines)
      then Returned (''Error: Line number '' @ str_int line_number @ '' is out of range.'')
      else if action \<in> set [''add'', ''insert'']
      then (case new_text of
              None \<Rightarrow> Raised (TypeError ''unsupported operand type(s) for +'')
            | Some nt \<Rightarrow>
                edit_loop action old_text new_text
                  (take (nat (line_number - 1)) lines @ [nt @ ''\<newline>'']
                     @ drop (nat (line_number - 1)) lines)
                  line_numbers)
      else if action \<in> set [''replace'', ''modify'']
      then (case old_text of
              None \<Rightarrow> Raised (TypeError ''in string requires string as left operand'')
            | Some ot \<Rightarrow>
                if \<not> sublist ot (lines ! nat (line_number - 1))
                then Returned (''Error: old_text '' @ quoted ot @ '' not found on line ''
                                 @ str_int line_number @ '' ''
                                 @ quoted (lines ! nat (line_number - 1)) @ ''.'')
                else (case new_text of
                        None \<Rightarrow> Raised (TypeError ''replace() argument 2 must be str'')
                      | Some nt \<Rightarrow>
                          edit_loop action old_text new_text
                            (lines[nat (line_number - 1) :=
                                     str_replace ot nt (lines ! nat (line_number - 1))])
                            line_numbers))
      else if action = ''delete''
      then edit_loop action old_text new_text
             (take (nat (line_number - 1)) lines @ drop (Suc (nat (line_number - 1))) lines)
             line_numbers
      else edit_loop action old_text new_text lines line_numbers)"

text \<open>
  \<open>edit_line\<close>. Nothing in it catches an exception: the \<open>ValueError\<close> of \<open>safe_join\<close>
  and the errors of \<open>open\<close> leave the function as exceptions (\<open>Inl\<close>). The module
  never imports \<open>difflib\<close>, so the statement that computes the diff under \<open>debug\<close>
  raises \<open>NameError\<close>.
\<close>

definition edit_line ::
  "string \<Rightarrow> filesystem \<Rightarrow> string \<Rightarrow> line_numbers_arg \<Rightarrow> string \<Rightarrow> string option \<Rightarrow>
     string option \<Rightarrow> bool \<Rightarrow> filesystem \<times> (exn + string)" where
  "edit_line wd fs filename line_numbers action old_text new_text debug =
     (case safe_join wd [filename] of
        Inl e \<Rightarrow> (fs, Inl e)
      | Inr filepath \<Rightarrow>
          if \<not> os_path_isfile fs filepath
          then (fs, Inr (''Error: File '' @ quoted filepath @ '' does not exist.''))
          else
            case line_numbers of
              LineInt i \<Rightarrow> (fs, Inr ''Error: Invalid line number(s) provided.'')
            | LineList l \<Rightarrow> (fs, Inr ''Error: Invalid line number(s) provided.'')
            | LineStr line_numbers_str \<Rightarrow>
                if action \<notin> set actions
                then (fs, Inr (''Error: Invalid action. Must be one of ''
                                 @ ''['add', 'insert', 'modify', 'replace', 'delete'].''))
                else if action \<in> set [''add'', ''replace'', ''insert'', ''modify'']
                          \<and> new_text = None
                then (fs, Inr (''Error: new_text must be provided for ''
                                 @ quoted ''add'' @ '', '' @ quoted ''insert'' @ '' and ''
                                 @ quoted ''modify'' @ '' actions.''))
                else if action \<in> set [''replace'', ''modify''] \<and> old_text = None
                then (fs, Inr (''Error: old_text must be provided for ''
                                 @ quoted ''modify'' @ '' action.''))
                else
                  case parse_line_numbers line_numbers_str of
                    None \<Rightarrow>
                      (fs, Inr (''Error: Invalid line number(s) format. ''
                                  @ ''Must be an int or a list of ints.''))
                  | Some line_number_list \<Rightarrow>
                      (case open_read fs filepath of
                         Inl e \<Rightarrow> (fs, Inl e)
                       | Inr content \<Rightarrow>
                           let original_lines = readlines content
                           in case edit_loop action old_text new_text original_lines
                                     line_number_list of
                                Returned msg \<Rightarrow> (fs, Inr msg)
                              | Raised e \<Rightarrow> (fs, Inl e)
                              | Completed lines \<Rightarrow>
                                  (case open_write fs (filepath @ ''.bak'')
                                          (concat original_lines) of
                                     Inl e \<Rightarrow> (fs, Inl e)
                                   | Inr fs1 \<Rightarrow>
                                       (case open_write fs1 filepath (concat lines) of
                                          Inl e \<Rightarrow> (fs1, Inl e)
                                        | Inr fs2 \<Rightarrow>
                                            if debug
                                            then (case open_read fs2 filepath of
                                                    Inl e \<Rightarrow> (fs2, Inl e)
                                                  | Inr new_content \<Rightarrow>
                                                      (fs2, Inl (NameError ''difflib'')))
                                            else
                                              (fs2,
                                               Inr (''File: '' @ filename @ '', Action: ''
                                                      @ capitalize action @ '', Result: ''
                                                      @ (if original_lines \<noteq> lines
                                                         then ''Success.''
                                                         else ''No changes made'')))))))"

subsection \<open>Notions used in the statements\<close>

text \<open>
  \<open>only_log_grows wd fs fs'\<close>: from \<open>fs\<close> to \<open>fs'\<close> nothing but the log file has
  changed, and the log file was at most created or extended at its end.
\<close>

definition only_log_grows :: "string \<Rightarrow> filesystem \<Rightarrow> filesystem \<Rightarrow> bool" where
  "only_log_grows wd fs fs' \<longleftrightarrow>
     (\<forall>q. q \<noteq> LOG_FILE_PATH wd \<longrightarrow> entries fs' q = entries fs q) \<and>
     (entries fs (LOG_FILE_PATH wd) = Some Dir \<longrightarrow> entries fs' (LOG_FILE_PATH wd) = Some Dir) \<and>
     (\<forall>c. entries fs (LOG_FILE_PATH wd) = Some (File c) \<longrightarrow>
          (\<exists>t. entries fs' (LOG_FILE_PATH wd) = Some (File (c @ t))))"

text \<open>
  A working directory as \<open>os.getcwd()\<close> gives rise to it: an absolute path made of
  components that are not empty, not \<open>.\<close> or \<open>..\<close>, and hold no slash.
\<close>

definition clean_component :: "string \<Rightarrow> bool" where
  "clean_component c \<longleftrightarrow> c \<noteq> [] \<and> c \<noteq> ''.'' \<and> c \<noteq> ''..'' \<and> CHR ''/'' \<notin> set c"

definition absolute_path :: "string list \<Rightarrow> string" where
  "absolute_path comps = concat (map (\<lambda>c. ''/'' @ c) comps)"

text \<open>The text of a file; the empty text when there is no file.\<close>

definition file_text :: "filesystem \<Rightarrow> string \<Rightarrow> string" where
  "file_text fs p = (case entries fs p of Some (File c) \<Rightarrow> c | _ \<Rightarrow> [])"

text \<open>
  An example: the working directory \<open>/auto_gpt_workspace\<close> (the process runs in
  \<open>/\<close>), empty, the same with a file \<open>a.txt\<close> of three lines, and with a file
  \<open>a.txt\<close> whose one line holds the letter \<open>X\<close> twice.
\<close>

definition example_wd :: string where
  "example_wd = ''/auto_gpt_workspace''"

definition example_fs :: filesystem where
  "example_fs = \<lparr>entries = [''/auto_gpt_workspace'' \<mapsto> Dir], history = []\<rparr>"

definition example_fs_abc :: filesystem where
  "example_fs_abc =
     \<lparr>entries = [''/auto_gpt_workspace'' \<mapsto> Dir,
                 ''/auto_gpt_workspace/a.txt'' \<mapsto> File ''a\<newline>b\<newline>c\<newline>''],
      history = []\<rparr>"

definition example_fs_x :: filesystem where
  "example_fs_x =
     \<lparr>entries = [''/auto_gpt_workspace'' \<mapsto> Dir,
                 ''/auto_gpt_workspace/a.txt'' \<mapsto> File ''aXbX\<newline>''],
      history = []\<rparr>"

section \<open>Properties\<close>

subsection \<open>Path confinement\<close>

lemma commonprefix_loop_le:
  "s1 \<le> s2 \<Longrightarrow> commonprefix_loop s1 s2 = Inr (longest_common_prefix s1 s2)"
  by (induction s1 s2 rule: commonprefix_loop.induct) auto

lemma longest_common_prefix_commute:
  "longest_common_prefix xs ys = longest_common_prefix ys xs"
  by (induction xs ys rule: longest_common_prefix.induct) auto

lemma longest_common_prefix_eq_left:
  "longest_common_prefix xs ys = xs \<longleftrightarrow> prefix xs ys"
  by (induction xs ys rule: longest_common_prefix.induct) auto

lemma commonprefix_pair:
  "os_path_commonprefix [a, b] = Inr (longest_common_prefix a b)"
proof (cases "a \<le> b")
  case True
  then show ?thesis
    by (simp add: os_path_commonprefix_def min_def max_def commonprefix_loop_le)
next
  case False
  then have "b \<le> a" by simp
  then show ?thesis
    using False
    by (simp add: os_path_commonprefix_def min_def max_def commonprefix_loop_le
        longest_common_prefix_commute [of b a])
qed

text \<open>
  C1: for every base and every sequence of segments, \<open>safe_join\<close> raises the path-escape
  error (\<open>ValueError\<close>) exactly when \<open>base\<close> is not a literal prefix of the joined,
  normalised path, and otherwise returns that normalised path; being a function of its
  two arguments alone, it has no effect on any state.
\<close>

theorem safe_join_prefix_check:
  "safe_join base paths =
     (if prefix base (os_path_normpath (os_path_join base paths))
      then Inr (os_path_normpath (os_path_join base paths))
      else Inl (ValueError ''Attempted to access outside of working directory.''))"
  by (simp add: safe_join_def Let_def commonprefix_pair longest_common_prefix_eq_left)

text \<open>
  For a working directory that is an absolute path of clean components, a name that is
  one clean component resolves to the path below the working directory; so does the
  name of the log file, which is the premise of the statements on writing and appending.
\<close>

lemma split_on_no_sep:
  "sep \<notin> set c \<Longrightarrow>
     split_on sep (c @ r) = (c @ hd (split_on sep r)) # tl (split_on sep r)"
proof (induction c)
  case Nil
  have "split_on sep r \<noteq> []" by (cases r) (auto split: list.splits)
  then show ?case by simp
next
  case (Cons a c)
  then show ?case by auto
qed

lemma split_on_absolute_path:
  "\<forall>c\<in>set comps. clean_component c \<Longrightarrow>
     split_on CHR ''/'' (absolute_path comps) = (if comps = [] then [[]] else [] # comps)"
proof (induction comps)
  case Nil
  show ?case by (simp add: absolute_path_def)
next
  case (Cons c comps)
  have ns: "CHR ''/'' \<notin> set c" using Cons.prems by (simp add: clean_component_def)
  have "absolute_path (c # comps) = CHR ''/'' # (c @ absolute_path comps)"
    by (simp add: absolute_path_def)
  then have "split_on CHR ''/'' (absolute_path (c # comps))
               = [] # split_on CHR ''/'' (c @ absolute_path comps)"
    by simp
  also have "split_on CHR ''/'' (c @ absolute_path comps)
               = (c @ hd (split_on CHR ''/'' (absolute_path comps)))
                   # tl (split_on CHR ''/'' (absolute_path comps))"
    using ns by (rule split_on_no_sep)
  also have "\<dots> = c # comps"
    using Cons by simp
  finally show ?case by simp
qed

lemma normpath_loop_clean:
  "\<forall>c\<in>set comps. clean_component c \<Longrightarrow>
     normpath_loop n acc comps = acc @ comps"
  by (induction comps arbitrary: acc) (auto simp: clean_component_def)

lemma join_with_absolute_path:
  "comps \<noteq> [] \<Longrightarrow> ''/'' @ join_with ''/'' comps = absolute_path comps"
proof (induction comps)
  case Nil
  then show ?case by simp
next
  case (Cons c cs)
  show ?case
  proof (cases cs)
    case Nil
    then show ?thesis by (simp add: absolute_path_def)
  next
    case (Cons d ds)
    then show ?thesis
      using Cons.IH by (simp add: absolute_path_def)
  qed
qed

lemma os_path_normpath_absolute_path:
  assumes "comps \<noteq> []" and "\<forall>c\<in>set comps. clean_component c"
  shows "os_path_normpath (absolute_path comps) = absolute_path comps"
proof -
  obtain c cs where comps: "comps = c # cs" using assms(1) by (cases comps) auto
  obtain a as where c: "c = a # as" and a: "a \<noteq> CHR ''/''"
    using assms(2) comps by (cases c) (auto simp: clean_component_def)
  have p: "absolute_path comps = CHR ''/'' # a # (as @ absolute_path cs)"
    by (simp add: absolute_path_def comps c)
  have sl: "prefix ''/'' (absolute_path comps)" "\<not> prefix ''//'' (absolute_path comps)"
    using a by (simp_all add: p)
  have sp: "split_on CHR ''/'' (absolute_path comps) = [] # comps"
    using split_on_absolute_path [OF assms(2)] assms(1) by simp
  have nl: "normpath_loop 1 [] ([] # comps) = comps"
    using normpath_loop_clean [OF assms(2), of 1 "[]"] by simp
  have ne: "absolute_path comps \<noteq> []" by (simp add: p)
  show ?thesis
    unfolding os_path_normpath_def Let_def
    using sl sp nl ne join_with_absolute_path [OF assms(1)] by simp
qed

lemma absolute_path_snoc:
  "absolute_path (comps @ [name]) = absolute_path comps @ ''/'' @ name"
  by (simp add: absolute_path_def)

lemma absolute_path_no_trailing_slash:
  assumes "comps \<noteq> []" and "\<forall>c\<in>set comps. clean_component c"
  shows "absolute_path comps \<noteq> [] \<and> \<not> suffix ''/'' (absolute_path comps)"
proof -
  obtain cs c where comps: "comps = cs @ [c]"
    using assms(1) by (metis rev_exhaust)
  have cl: "c \<noteq> []" "CHR ''/'' \<notin> set c"
    using assms(2) comps by (auto simp: clean_component_def)
  then have "last c \<noteq> CHR ''/''" by (metis last_in_set)
  have "absolute_path comps = (absolute_path cs @ ''/'' @ butlast c) @ [last c]"
    using cl(1) by (simp add: comps absolute_path_snoc)
  then show ?thesis
    using \<open>last c \<noteq> CHR ''/''\<close> by (auto simp: suffix_def)
qed

lemma safe_join_clean_name:
  assumes "comps \<noteq> []" and "\<forall>c\<in>set comps. clean_component c" and "clean_component name"
  shows "safe_join (absolute_path comps) [name] = Inr (absolute_path comps @ ''/'' @ name)"
proof -
  have np: "\<not> prefix ''/'' name"
    using assms(3) by (cases name) (auto simp: clean_component_def)
  have j: "os_path_join (absolute_path comps) [name] = absolute_path (comps @ [name])"
    using np absolute_path_no_trailing_slash [OF assms(1,2)]
    by (simp add: os_path_join_def absolute_path_snoc)
  have n: "os_path_normpath (absolute_path (comps @ [name])) = absolute_path (comps @ [name])"
    using assms by (intro os_path_normpath_absolute_path) auto
  show ?thesis
    unfolding safe_join_def Let_def j n commonprefix_pair
    by (simp add: longest_common_prefix_eq_left absolute_path_snoc)
qed

lemma safe_join_log_file:
  assumes "comps \<noteq> []" and "\<forall>c\<in>set comps. clean_component c"
  shows "safe_join (absolute_path comps) [LOG_FILE] = Inr (LOG_FILE_PATH (absolute_path comps))"
  unfolding LOG_FILE_PATH_def
  by (rule safe_join_clean_name [OF assms]) (simp add: clean_component_def LOG_FILE_def)

text \<open>
  The example of the specification, and the known weakness of the comparison of prefixes:
  a sibling directory whose name starts like the base passes.
\<close>

lemma safe_join_escape_example:
  "safe_join ''/sandbox'' [''../etc/passwd'']
     = Inl (ValueError ''Attempted to access outside of working directory.'')"
  by code_simp

lemma safe_join_sibling_example:
  "safe_join ''/sandbox'' [''../sandbox-evil/x''] = Inr ''/sandbox-evil/x''"
  by code_simp

subsection \<open>The chunks of \<open>split_file\<close>\<close>

lemma split_file_from_diverges:
  assumes "max_length \<le> overlap"
  shows "start < int (length content) \<Longrightarrow>
         split_file_from content max_length overlap start \<noteq> Some chunks"
proof (induction chunks arbitrary: start)
  case Nil
  then show ?case
    by (subst split_file_from.simps) (auto simp: Option.bind_eq_Some_conv)
next
  case (Cons c chunks)
  have "start + (max_length - overlap) < int (length content)"
    using Cons.prems assms by simp
  from Cons.IH [OF this] show ?case
    using Cons.prems
    by (subst split_file_from.simps) (auto simp: Option.bind_eq_Some_conv)
qed

lemma split_file_from_terminates:
  assumes "overlap < max_length"
  shows "\<exists>chunks. split_file_from content max_length overlap start = Some chunks"
proof (induction "nat (int (length content) - start)" arbitrary: start rule: less_induct)
  case less
  show ?case
  proof (cases "start < int (length content)")
    case True
    have "nat (int (length content) - (start + (max_length - overlap)))
            < nat (int (length content) - start)"
      using True assms by simp
    from less [OF this] obtain chunks where
      "split_file_from content max_length overlap (start + (max_length - overlap)) = Some chunks"
      by blast
    then show ?thesis
      using True by (subst split_file_from.simps) simp
  next
    case False
    then show ?thesis
      by (subst split_file_from.simps) simp
  qed
qed

lemma split_file_take_from_endless:
  "max_length \<le> overlap \<Longrightarrow> start < int (length content) \<Longrightarrow>
     length (split_file_take_from n content max_length overlap start) = n"
  by (induction n arbitrary: start) auto

text \<open>
  Every chunk is a window of \<open>max_length + overlap\<close> characters of the content, cut at
  its end: the slice runs to \<open>end + overlap\<close>, and \<open>end\<close> is already
  \<open>start + max_length\<close>.
\<close>

lemma split_file_chunk_window:
  assumes "0 \<le> start" "0 \<le> max_length + overlap"
  shows "split_file_chunk content max_length overlap start =
           take (nat (max_length + overlap)) (drop (nat start) content)"
  using assms
  by (auto simp: split_file_chunk_def py_slice_def Let_def min_def max_def nat_diff_distrib
      nat_add_distrib)

lemma split_file_first_chunk:
  assumes "overlap < max_length" "0 \<le> max_length + overlap" "content \<noteq> []"
  shows "\<exists>rest. split_file content max_length overlap =
            Some (take (nat (max_length + overlap)) content # rest)"
proof -
  obtain rest where
    "split_file_from content max_length overlap (0 + (max_length - overlap)) = Some rest"
    using split_file_from_terminates [OF assms(1)] by blast
  then show ?thesis
    using assms(3) split_file_chunk_window [of 0 max_length overlap content] assms(2)
    unfolding split_file_def
    by (subst split_file_from.simps) simp
qed

text \<open>
  C6 (as amended): \<open>split_file\<close> has no guard and never fails. When
  \<open>overlap < max_length\<close> the loop exits and the sequence of chunks is finite. On a
  non-empty content with \<open>overlap \<ge> max_length\<close> the loop never exits
  (\<open>list(split_file(...))\<close> does not return), and a consumer can draw any number
  \<open>n\<close> of chunks from the generator.
\<close>

theorem split_file_finite_iff_advancing:
  "(overlap < max_length \<longrightarrow>
      (\<exists>chunks. split_file content max_length overlap = Some chunks)) \<and>
   (content \<noteq> [] \<and> max_length \<le> overlap \<longrightarrow>
      split_file content max_length overlap = None \<and>
      (\<forall>n. length (split_file_take n content max_length overlap) = n))"
proof (intro conjI impI allI)
  assume "overlap < max_length"
  then show "\<exists>chunks. split_file content max_length overlap = Some chunks"
    unfolding split_file_def by (rule split_file_from_terminates)
next
  assume a: "content \<noteq> [] \<and> max_length \<le> overlap"
  then have "0 < int (length content)" by simp
  then have "\<And>chunks. split_file_from content max_length overlap 0 \<noteq> Some chunks"
    using a split_file_from_diverges by blast
  then show "split_file content max_length overlap = None"
    unfolding split_file_def by (cases "split_file_from content max_length overlap 0") auto
next
  fix n
  assume a: "content \<noteq> [] \<and> max_length \<le> overlap"
  then show "length (split_file_take n content max_length overlap) = n"
    unfolding split_file_take_def by (simp add: split_file_take_from_endless)
qed

theorem split_file_finite_iff_advancing_witness:
  "(\<exists>chunks. split_file ''abc'' 2 1 = Some chunks) \<and> split_file ''abc'' 10 10 = None"
  using split_file_finite_iff_advancing [where content = "''abc''" and max_length = 2 and overlap = 1]
    split_file_finite_iff_advancing [where content = "''abc''" and max_length = 10 and overlap = 10]
  by simp

text \<open>
  C6 as stated fails: with \<open>max_length = 10\<close> and \<open>overlap = 10\<close> the call does not
  fail; it yields the chunk \<open>abc\<close> again and again.
\<close>

theorem split_file_no_guard_counterexample:
  "split_file ''abc'' 10 10 = None \<and>
   split_file_take 3 ''abc'' 10 10 = [''abc'', ''abc'', ''abc'']"
proof
  have "\<And>chunks. split_file_from ''abc'' 10 10 0 \<noteq> Some chunks"
    by (rule split_file_from_diverges) simp_all
  then show "split_file ''abc'' 10 10 = None"
    unfolding split_file_def by (cases "split_file_from ''abc'' 10 10 0") auto
next
  show "split_file_take 3 ''abc'' 10 10 = [''abc'', ''abc'', ''abc'']"
    by (simp add: split_file_take_def numeral_3_eq_3 split_file_chunk_def py_slice_def)
qed

text \<open>
  C5 fails on the code: with \<open>max_length = 4\<close> and \<open>overlap = 1\<close> the first chunk
  has five characters, and the first two chunks share the two characters \<open>34\<close>.
  The ranges do cover the content.
\<close>

theorem split_file_overlap_example:
  "split_file ''0123456789'' 4 1 = Some [''01234'', ''34567'', ''6789'', ''9'']"
  by (simp add: split_file_def split_file_from.simps split_file_chunk_def py_slice_def)

subsection \<open>The operation log and the duplicate check\<close>

text \<open>
  Whatever \<open>log_operation\<close> and its \<open>append_to_file\<close> do, they change the log file
  only, and only by adding to its end.
\<close>

lemma only_log_grows_refl: "only_log_grows wd fs fs"
  by (simp add: only_log_grows_def)

lemma only_log_grows_trans:
  "only_log_grows wd fs1 fs2 \<Longrightarrow> only_log_grows wd fs2 fs3 \<Longrightarrow> only_log_grows wd fs1 fs3"
  unfolding only_log_grows_def
  by (metis append.assoc)

lemma open_append_log_grows:
  "open_append fs (LOG_FILE_PATH wd) text1 = Inr fs' \<Longrightarrow> only_log_grows wd fs fs'"
  by (auto simp: open_append_def only_log_grows_def split: option.splits node.splits if_splits)

lemma open_write_header_log_grows:
  "\<not> os_path_exists fs (LOG_FILE_PATH wd) \<Longrightarrow>
   open_write fs (LOG_FILE_PATH wd) text1 = Inr fs' \<Longrightarrow> only_log_grows wd fs fs'"
  by (auto simp: open_write_def os_path_exists_def only_log_grows_def
      split: option.splits node.splits if_splits)

lemma log_grows_both:
  assumes h: "safe_join wd [LOG_FILE] = Inr (LOG_FILE_PATH wd)"
  shows "only_log_grows wd fs (fst (log_operation depth wd fs operation filename)) \<and>
         only_log_grows wd fs (fst (append_to_file depth wd fs LOG_FILE text1))"
proof (induction depth arbitrary: fs operation filename text1)
  case 0
  show ?case by (simp add: only_log_grows_refl)
next
  case (Suc depth)
  have IH_log: "\<And>fs operation filename. only_log_grows wd fs (fst (log_operation depth wd fs operation filename))"
    and IH_app: "\<And>fs text1. only_log_grows wd fs (fst (append_to_file depth wd fs LOG_FILE text1))"
    using Suc.IH by blast+
  have "only_log_grows wd fs (fst (log_operation (Suc depth) wd fs operation filename))"
  proof (cases "os_path_exists fs (LOG_FILE_PATH wd)")
    case True
    then show ?thesis
      using IH_app [of fs "operation @ '': '' @ filename @ ''\<newline>''"]
      by (auto split: prod.splits sum.splits)
  next
    case False
    show ?thesis
    proof (cases "open_write fs (LOG_FILE_PATH wd) ''File Operation Logger ''")
      case (Inl e)
      then show ?thesis using False by (simp add: only_log_grows_refl)
    next
      case (Inr fs1)
      have "only_log_grows wd fs fs1"
        using False Inr by (rule open_write_header_log_grows)
      moreover have "only_log_grows wd fs1 (fst (append_to_file depth wd fs1 LOG_FILE (operation @ '': '' @ filename @ ''\<newline>'')))"
        by (rule IH_app)
      ultimately show ?thesis
        using False Inr by (auto split: prod.splits sum.splits intro: only_log_grows_trans)
    qed
  qed
  moreover have "only_log_grows wd fs (fst (append_to_file (Suc depth) wd fs LOG_FILE text1))"
  proof (cases "open_append fs (LOG_FILE_PATH wd) text1")
    case (Inl e)
    then show ?thesis using h by (simp add: only_log_grows_refl)
  next
    case (Inr fs1)
    have "only_log_grows wd fs fs1" using Inr by (rule open_append_log_grows)
    moreover have "only_log_grows wd fs1 (fst (log_operation depth wd fs1 ''append'' LOG_FILE))"
      by (rule IH_log)
    ultimately show ?thesis
      using h Inr by (auto split: prod.splits sum.splits intro: only_log_grows_trans)
  qed
  ultimately show ?case by blast
qed

lemma append_to_file_returns:
  "\<exists>fs' msg. append_to_file (Suc depth) wd fs filename text1 = (fs', Inr msg)"
  by (auto split: sum.splits prod.splits)

lemma append_to_file_log_entry:
  assumes h: "safe_join wd [LOG_FILE] = Inr (LOG_FILE_PATH wd)"
    and f: "entries fs (LOG_FILE_PATH wd) = Some (File c)"
  shows "\<exists>t. entries (fst (append_to_file (Suc depth) wd fs LOG_FILE text1)) (LOG_FILE_PATH wd)
            = Some (File (c @ text1 @ t))"
proof -
  define fs1 where "fs1 = fs\<lparr>entries := (entries fs)(LOG_FILE_PATH wd \<mapsto> File (c @ text1)),
                     history := history fs @ [Appended (LOG_FILE_PATH wd) text1]\<rparr>"
  have o: "open_append fs (LOG_FILE_PATH wd) text1 = Inr fs1"
    using f by (simp add: open_append_def fs1_def)
  have "only_log_grows wd fs1 (fst (log_operation depth wd fs1 ''append'' LOG_FILE))"
    using log_grows_both [OF h] by blast
  moreover have "entries fs1 (LOG_FILE_PATH wd) = Some (File (c @ text1))"
    by (simp add: fs1_def)
  ultimately obtain t where
    "entries (fst (log_operation depth wd fs1 ''append'' LOG_FILE)) (LOG_FILE_PATH wd)
       = Some (File ((c @ text1) @ t))"
    unfolding only_log_grows_def by blast
  then show ?thesis
    using h o by (auto split: prod.splits sum.splits)
qed


text \<open>
  Reading leaves a text without carriage returns as it is, also where it stands inside
  a longer text, provided it does not start with a line feed that a carriage return
  before it would swallow.
\<close>

lemma universal_newlines_Cons:
  "c \<noteq> CHR 0x0D \<Longrightarrow> universal_newlines (c # r) = c # universal_newlines r"
  by (cases r) simp_all

lemma universal_newlines_append_no_cr:
  "CHR 0x0D \<notin> set e \<Longrightarrow> universal_newlines (e @ v) = e @ universal_newlines v"
proof (induction e)
  case Nil
  show ?case by simp
next
  case (Cons a e)
  then have "a \<noteq> CHR 0x0D" by auto
  then show ?case using Cons by (simp add: universal_newlines_Cons)
qed

lemma universal_newlines_no_cr:
  "CHR 0x0D \<notin> set s \<Longrightarrow> universal_newlines s = s"
  using universal_newlines_append_no_cr [of s "[]"] by simp







subsection \<open>Appending\<close>

lemma only_log_grows_exists:
  "only_log_grows wd fs fs' \<Longrightarrow> entries fs (LOG_FILE_PATH wd) \<noteq> None \<Longrightarrow>
     entries fs' (LOG_FILE_PATH wd) \<noteq> None"
  unfolding only_log_grows_def
  by (cases "entries fs (LOG_FILE_PATH wd)") (auto, metis node.exhaust option.distinct(1))

lemma log_operation_returns:
  assumes h: "safe_join wd [LOG_FILE] = Inr (LOG_FILE_PATH wd)"
    and lg: "entries fs (LOG_FILE_PATH wd) = None \<longrightarrow>
               entries fs (os_path_dirname (LOG_FILE_PATH wd)) = Some Dir"
  shows "\<exists>fs'. log_operation (Suc (Suc depth)) wd fs operation filename = (fs', Inr ()) \<and>
           only_log_grows wd fs fs' \<and> entries fs' (LOG_FILE_PATH wd) \<noteq> None"
proof -
  let ?entry = "operation @ '': '' @ filename @ ''\<newline>''"
  have "\<exists>fs1. (if \<not> os_path_exists fs (LOG_FILE_PATH wd)
      then open_write fs (LOG_FILE_PATH wd) ''File Operation Logger '' else Inr fs) = Inr fs1"
  proof (cases "entries fs (LOG_FILE_PATH wd) = None")
    case True
    then show ?thesis using lg by (simp add: os_path_exists_def open_write_def)
  next
    case False
    then show ?thesis by (simp add: os_path_exists_def)
  qed
  then obtain fs1 where fs1:
    "(if \<not> os_path_exists fs (LOG_FILE_PATH wd)
      then open_write fs (LOG_FILE_PATH wd) ''File Operation Logger '' else Inr fs) = Inr fs1"
    by blast
  have ex1: "entries fs1 (LOG_FILE_PATH wd) \<noteq> None"
    using fs1
    by (auto simp: os_path_exists_def open_write_def split: if_splits option.splits node.splits)
  obtain fs' m where r: "append_to_file (Suc depth) wd fs1 LOG_FILE ?entry = (fs', Inr m)"
    using append_to_file_returns by blast
  have g1: "only_log_grows wd fs1 fs'"
    using log_grows_both [OF h, of fs1 "Suc depth" operation filename ?entry] r by simp
  have g0: "only_log_grows wd fs fs1"
    using fs1 open_write_header_log_grows [of fs wd _ fs1]
    by (auto simp: only_log_grows_refl split: if_splits)
  have "log_operation (Suc (Suc depth)) wd fs operation filename = (fs', Inr ())"
    using fs1 r by (simp del: append_to_file.simps)
  then show ?thesis
    using only_log_grows_trans [OF g0 g1] only_log_grows_exists [OF g1 ex1] by blast
qed

lemma append_to_file_succeeds:
  assumes h: "safe_join wd [LOG_FILE] = Inr (LOG_FILE_PATH wd)"
    and p: "safe_join wd [filename] = Inr filepath"
    and ne: "filepath \<noteq> LOG_FILE_PATH wd"
    and nd: "entries fs filepath \<noteq> Some Dir"
    and par: "entries fs filepath = None \<longrightarrow> entries fs (os_path_dirname filepath) = Some Dir"
    and lg: "entries fs (LOG_FILE_PATH wd) = None \<longrightarrow>
               entries fs (os_path_dirname (LOG_FILE_PATH wd)) = Some Dir"
  shows "\<exists>fs'. append_to_file (Suc (Suc (Suc depth))) wd fs filename text1
                  = (fs', Inr ''Text appended successfully.'') \<and>
               entries fs' filepath = Some (File (file_text fs filepath @ text1)) \<and>
               entries fs' (LOG_FILE_PATH wd) \<noteq> None"
proof -
  define fs1 where
    "fs1 = fs\<lparr>entries := (entries fs)(filepath \<mapsto> File (file_text fs filepath @ text1)),
              history := history fs @ [Appended filepath text1]\<rparr>"
  have o: "open_append fs filepath text1 = Inr fs1"
    using nd par
    by (auto simp: open_append_def fs1_def file_text_def split: option.splits node.splits)
  have "os_path_dirname (LOG_FILE_PATH wd) \<noteq> filepath" if "entries fs (LOG_FILE_PATH wd) = None"
    using that lg nd by auto
  then have lg1: "entries fs1 (LOG_FILE_PATH wd) = None \<longrightarrow>
               entries fs1 (os_path_dirname (LOG_FILE_PATH wd)) = Some Dir"
    using lg ne by (auto simp: fs1_def)
  from log_operation_returns [OF h lg1, of depth "''append''" filename]
  obtain fs' where r: "log_operation (Suc (Suc depth)) wd fs1 ''append'' filename = (fs', Inr ())"
    and g: "only_log_grows wd fs1 fs'" and ex: "entries fs' (LOG_FILE_PATH wd) \<noteq> None"
    by blast
  have "entries fs' filepath = Some (File (file_text fs filepath @ text1))"
    using g ne unfolding only_log_grows_def by (simp add: fs1_def)
  moreover have "append_to_file (Suc (Suc (Suc depth))) wd fs filename text1
                  = (fs', Inr ''Text appended successfully.'')"
    using p o r by (simp del: log_operation.simps)
  ultimately show ?thesis using ex by blast
qed

text \<open>
  C9: \<open>append_to_file\<close> makes no duplicate check. Two appends to the same name, one
  after the other, both return success, and the file then holds its former text followed
  by the two appended texts in the order of the calls (\<open>12\<close> for a new file and the
  texts \<open>1\<close> and \<open>2\<close>). The premises describe a workspace in working order: the log's
  name and the file's name resolve inside the working directory, the file is not the log
  itself and not a directory, the directories of a file that is yet to be created exist,
  and the interpreter's stack has room for three nested calls.
\<close>

theorem append_to_file_twice:
  assumes h: "safe_join wd [LOG_FILE] = Inr (LOG_FILE_PATH wd)"
    and p: "safe_join wd [filename] = Inr filepath"
    and ne: "filepath \<noteq> LOG_FILE_PATH wd"
    and nd: "entries fs filepath \<noteq> Some Dir"
    and par: "entries fs filepath = None \<longrightarrow> entries fs (os_path_dirname filepath) = Some Dir"
    and lg: "entries fs (LOG_FILE_PATH wd) = None \<longrightarrow>
               entries fs (os_path_dirname (LOG_FILE_PATH wd)) = Some Dir"
    and d: "3 \<le> depth1" "3 \<le> depth2"
  shows "\<exists>fs1 fs2.
           append_to_file depth1 wd fs filename text1 = (fs1, Inr ''Text appended successfully.'') \<and>
           append_to_file depth2 wd fs1 filename text2 = (fs2, Inr ''Text appended successfully.'') \<and>
           entries fs2 filepath = Some (File (file_text fs filepath @ text1 @ text2))"
proof -
  obtain k1 k2 where k: "depth1 = Suc (Suc (Suc k1))" "depth2 = Suc (Suc (Suc k2))"
    using d by (metis Suc_le_D numeral_3_eq_3 Suc_le_mono)
  from append_to_file_succeeds [OF h p ne nd par lg, of k1 text1]
  obtain fs1 where
    a1: "append_to_file depth1 wd fs filename text1 = (fs1, Inr ''Text appended successfully.'')"
    and c1: "entries fs1 filepath = Some (File (file_text fs filepath @ text1))"
    and l1: "entries fs1 (LOG_FILE_PATH wd) \<noteq> None"
    unfolding k by blast
  have nd1: "entries fs1 filepath \<noteq> Some Dir" and par1: "entries fs1 filepath = None \<longrightarrow>
      entries fs1 (os_path_dirname filepath) = Some Dir"
    and lg1: "entries fs1 (LOG_FILE_PATH wd) = None \<longrightarrow>
               entries fs1 (os_path_dirname (LOG_FILE_PATH wd)) = Some Dir"
    using c1 l1 by auto
  from append_to_file_succeeds [OF h p ne nd1 par1 lg1, of k2 text2]
  obtain fs2 where
    a2: "append_to_file depth2 wd fs1 filename text2 = (fs2, Inr ''Text appended successfully.'')"
    and c2: "entries fs2 filepath = Some (File (file_text fs1 filepath @ text2))"
    unfolding k by blast
  have "file_text fs1 filepath = file_text fs filepath @ text1"
    using c1 by (simp add: file_text_def)
  then show ?thesis using a1 a2 c2 by simp
qed

theorem append_to_file_twice_witness:
  "snd (append_to_file 3 example_wd example_fs ''a.txt'' ''1'') = Inr ''Text appended successfully.'' \<and>
   (\<exists>fs2. append_to_file 3 example_wd (fst (append_to_file 3 example_wd example_fs ''a.txt'' ''1''))
            ''a.txt'' ''2'' = (fs2, Inr ''Text appended successfully.'') \<and>
          entries fs2 ''/auto_gpt_workspace/a.txt'' = Some (File ''12''))"
proof -
  have h: "safe_join example_wd [LOG_FILE] = Inr (LOG_FILE_PATH example_wd)"
    by code_simp
  have p: "safe_join example_wd [''a.txt''] = Inr ''/auto_gpt_workspace/a.txt''"
    by code_simp
  have ne: "''/auto_gpt_workspace/a.txt'' \<noteq> LOG_FILE_PATH example_wd"
    by code_simp
  have nd: "entries example_fs ''/auto_gpt_workspace/a.txt'' \<noteq> Some Dir"
    by code_simp
  have par: "entries example_fs ''/auto_gpt_workspace/a.txt'' = None \<longrightarrow>
      entries example_fs (os_path_dirname ''/auto_gpt_workspace/a.txt'') = Some Dir"
    by code_simp
  have lg: "entries example_fs (LOG_FILE_PATH example_wd) = None \<longrightarrow>
      entries example_fs (os_path_dirname (LOG_FILE_PATH example_wd)) = Some Dir"
    by code_simp
  have ft: "file_text example_fs ''/auto_gpt_workspace/a.txt'' = []"
    by code_simp
  from append_to_file_twice [OF h p ne nd par lg, of 3 3 "''1''" "''2''"]
  show ?thesis
    unfolding ft by auto
qed

subsection \<open>Editing lines\<close>

lemma concat_readlines: "concat (readlines s) = s"
  by (induction s) (auto split: list.splits)

lemma os_path_dirname_bak: "os_path_dirname (p @ ''.bak'') = os_path_dirname p"
  by (simp add: os_path_dirname_def)

lemma edit_line_failure_1:
  "edit_line wd fs filename line_numbers action old_text new_text debug = (fs', Inr msg) \<Longrightarrow>
      prefix ''Error: '' msg \<Longrightarrow> fs' = fs"
  unfolding edit_line_def Let_def
  by (simp split: sum.splits if_splits line_numbers_arg.splits option.splits loop_result.splits
      del: set_simps) (auto simp del: set_simps)

lemma edit_line_failure_2:
  "edit_line wd fs filename line_numbers action old_text new_text debug = (fs', Inl (ValueError m))
     \<Longrightarrow> fs' = fs"
  unfolding edit_line_def Let_def
  by (simp split: sum.splits if_splits line_numbers_arg.splits option.splits loop_result.splits
      del: set_simps) (auto simp del: set_simps simp: open_write_def open_read_def split: option.splits node.splits if_splits)

text \<open>
  What a call does that passes every check and the loop, when the backup can be written:
  the backup, then the file, then the diff that fails for want of \<open>difflib\<close> or the
  summary.
\<close>

lemma edit_line_passes:
  assumes p: "safe_join wd [filename] = Inr filepath"
    and f: "entries fs filepath = Some (File content)"
    and a: "action \<in> set actions"
    and n: "action \<in> set [''add'', ''replace'', ''insert'', ''modify''] \<longrightarrow> new_text \<noteq> None"
    and ot: "action \<in> set [''replace'', ''modify''] \<longrightarrow> old_text \<noteq> None"
    and l: "parse_line_numbers line_numbers = Some line_number_list"
    and e: "edit_loop action old_text new_text (readlines (universal_newlines content)) line_number_list
              = Completed lines"
    and b: "entries fs (filepath @ ''.bak'') \<noteq> Some Dir"
    and d: "entries fs (os_path_dirname filepath) = Some Dir"
  shows "edit_line wd fs filename (LineStr line_numbers) action old_text new_text debug =
           (fs\<lparr>entries := (entries fs)(filepath @ ''.bak'' \<mapsto> File (universal_newlines content),
                                         filepath \<mapsto> File (concat lines)),
               history := history fs @ [Wrote (filepath @ ''.bak'') (universal_newlines content),
                                        Wrote filepath (concat lines)]\<rparr>,
            if debug then Inl (NameError ''difflib'')
            else Inr (''File: '' @ filename @ '', Action: '' @ capitalize action @ '', Result: ''
                        @ (if readlines (universal_newlines content) \<noteq> lines then ''Success.''
                           else ''No changes made'')))"
proof -
  define fs1 where
    "fs1 = fs\<lparr>entries := (entries fs)(filepath @ ''.bak'' \<mapsto> File (universal_newlines content)),
              history := history fs @ [Wrote (filepath @ ''.bak'') (universal_newlines content)]\<rparr>"
  define fs2 where
    "fs2 = fs1\<lparr>entries := (entries fs1)(filepath \<mapsto> File (concat lines)),
               history := history fs1 @ [Wrote filepath (concat lines)]\<rparr>"
  have isf: "os_path_isfile fs filepath" using f by (simp add: os_path_isfile_def)
  have rd: "open_read fs filepath = Inr (universal_newlines content)" using f by (simp add: open_read_def)
  have w1: "open_write fs (filepath @ ''.bak'') (concat (readlines (universal_newlines content))) = Inr fs1"
    using b d
    by (auto simp: open_write_def fs1_def concat_readlines os_path_dirname_bak
        split: option.splits node.splits)
  have "entries fs1 filepath = Some (File content)" using f by (simp add: fs1_def)
  then have w2: "open_write fs1 filepath (concat lines) = Inr fs2"
    by (simp add: open_write_def fs2_def)
  have rd2: "open_read fs2 filepath = Inr (universal_newlines (concat lines))"
    by (simp add: open_read_def fs2_def)
  have n': "\<not> (action \<in> set [''add'', ''replace'', ''insert'', ''modify''] \<and> new_text = None)"
    using n by blast
  have ot': "\<not> (action \<in> set [''replace'', ''modify''] \<and> old_text = None)"
    using ot by blast
  have "edit_line wd fs filename (LineStr line_numbers) action old_text new_text debug =
          (fs2, if debug then Inl (NameError ''difflib'')
            else Inr (''File: '' @ filename @ '', Action: '' @ capitalize action @ '', Result: ''
                        @ (if readlines (universal_newlines content) \<noteq> lines then ''Success.''
                           else ''No changes made'')))"
    unfolding edit_line_def Let_def
    apply (simp only: p isf a n' ot' l rd e w1 w2 rd2 sum.case line_numbers_arg.case option.case
        loop_result.case if_True if_False not_True_eq_False not_not)
    by (cases debug) simp_all
  moreover have "fs2 = fs\<lparr>entries := (entries fs)(filepath @ ''.bak'' \<mapsto> File (universal_newlines content),
                                         filepath \<mapsto> File (concat lines)),
               history := history fs @ [Wrote (filepath @ ''.bak'') (universal_newlines content),
                                        Wrote filepath (concat lines)]\<rparr>"
    by (simp add: fs2_def fs1_def)
  ultimately show ?thesis by simp
qed

lemma edit_loop_append:
  "edit_loop action old_text new_text lines (xs @ ys) =
     (case edit_loop action old_text new_text lines xs of
        Completed mid \<Rightarrow> edit_loop action old_text new_text mid ys
      | Returned msg \<Rightarrow> Returned msg
      | Raised e \<Rightarrow> Raised e)"
proof (induction xs arbitrary: lines)
  case Nil
  show ?case by simp
next
  case (Cons x xs)
  note IH = Cons.IH
  show ?case
  proof (cases "x < 1 \<or> x > int (length lines)")
    case True
    then show ?thesis by (simp del: set_simps)
  next
    case inrange: False
    show ?thesis
    proof (cases "action \<in> set [''add'', ''insert'']")
      case True
      show ?thesis
      proof (cases new_text)
        case None
        then show ?thesis using True inrange by (simp del: set_simps)
      next
        case (Some nt)
        show ?thesis
          using True inrange IH unfolding Some by (simp del: set_simps)
      qed
    next
      case notadd: False
      show ?thesis
      proof (cases "action \<in> set [''replace'', ''modify'']")
        case True
        show ?thesis
        proof (cases old_text)
          case None
          then show ?thesis using True inrange notadd by (simp del: set_simps)
        next
          case ot: (Some ot)
          show ?thesis
          proof (cases new_text)
            case None
            then show ?thesis using True inrange notadd ot by (simp del: set_simps)
          next
            case (Some nt)
            show ?thesis
              using True inrange notadd IH unfolding ot Some by (simp del: set_simps)
          qed
        qed
      next
        case notmod: False
        show ?thesis
        proof (cases "action = ''delete''")
          case True
          show ?thesis
            using inrange notadd notmod IH unfolding True by (simp del: set_simps)
        next
          case False
          then show ?thesis
            using inrange notadd notmod IH by (simp del: set_simps)
        qed
      qed
    qed
  qed
qed

text \<open>
  C3: a call of \<open>edit_line\<close> that returns an error message (a missing file, a line
  specification that is not a string or does not parse, an unknown action, a missing
  text argument, a line number out of range, an old text that is not found) leaves the
  file system exactly as it was: nothing is written, neither to the file nor to a backup.
  The same holds when \<open>safe_join\<close> rejects the name and its \<open>ValueError\<close> leaves
  \<open>edit_line\<close>. Every error message starts with \<open>Error:\<close>; the summary of a
  successful call starts with \<open>File:\<close>.
\<close>

theorem edit_line_failure_writes_nothing:
  "(edit_line wd fs filename line_numbers action old_text new_text debug = (fs', Inr msg) \<and>
      prefix ''Error: '' msg \<longrightarrow> fs' = fs) \<and>
   (edit_line wd fs filename line_numbers action old_text new_text debug
      = (fs', Inl (ValueError m)) \<longrightarrow> fs' = fs)"
  using edit_line_failure_1 edit_line_failure_2 by blast

theorem edit_line_failure_writes_nothing_witness:
  "fst (edit_line example_wd example_fs_abc ''a.txt'' (LineStr ''2'') ''modify''
          (Some ''Z'') (Some ''Y'') True) = example_fs_abc \<and>
   snd (edit_line example_wd example_fs_abc ''a.txt'' (LineStr ''2'') ''modify''
          (Some ''Z'') (Some ''Y'') True)
     = Inr (''Error: old_text '' @ quoted ''Z'' @ '' not found on line 2 ''
              @ quoted ''b\<newline>'' @ ''.'') \<and>
   fst (edit_line example_wd example_fs_abc ''a.txt'' (LineStr ''4'') ''delete'' None None True)
     = example_fs_abc \<and>
   snd (edit_line example_wd example_fs_abc ''a.txt'' (LineStr ''4'') ''delete'' None None True)
     = Inr ''Error: Line number 4 is out of range.''"
proof -
  let ?r1 = "edit_line example_wd example_fs_abc ''a.txt'' (LineStr ''2'') ''modify''
          (Some ''Z'') (Some ''Y'') True"
  let ?m1 = "''Error: old_text '' @ quoted ''Z'' @ '' not found on line 2 ''
              @ quoted ''b\<newline>'' @ ''.''"
  let ?r2 = "edit_line example_wd example_fs_abc ''a.txt'' (LineStr ''4'') ''delete'' None None True"
  let ?m2 = "''Error: Line number 4 is out of range.''"
  have s1: "snd ?r1 = Inr ?m1" by code_simp
  have p1: "prefix ''Error: '' ?m1" by code_simp
  have s2: "snd ?r2 = Inr ?m2" by code_simp
  have p2: "prefix ''Error: '' ?m2" by code_simp
  have e1: "?r1 = (fst ?r1, Inr ?m1)" using s1 by (metis prod.collapse)
  have e2: "?r2 = (fst ?r2, Inr ?m2)" using s2 by (metis prod.collapse)
  have "fst ?r1 = example_fs_abc"
    using edit_line_failure_writes_nothing [of example_wd example_fs_abc "''a.txt''"
        "LineStr ''2''" "''modify''" "Some ''Z''" "Some ''Y''" True "fst ?r1" ?m1] e1 p1
    by blast
  moreover have "fst ?r2 = example_fs_abc"
    using edit_line_failure_writes_nothing [of example_wd example_fs_abc "''a.txt''"
        "LineStr ''4''" "''delete''" None None True "fst ?r2" ?m2] e2 p2
    by blast
  ultimately show ?thesis using s1 s2 by blast
qed

text \<open>
  C4: a call that passes every check and the loop writes the lines it has read, as it
  has read them, to \<open><filename>.bak\<close> and after that the changed lines to the file:
  these two writes, in this order, are all it adds to the history, whatever \<open>debug\<close> is
  and whether or not the lines have changed. The lines read are those of the file's text
  as a read in text mode hands it over; put together they are that text again, which is
  the stored text itself when it holds no carriage return. The last two premises say
  that the backup can be written: its name is not taken by a directory and the directory
  of the file exists.
\<close>

theorem edit_line_backup_before_commit:
  assumes "safe_join wd [filename] = Inr filepath"
    and "entries fs filepath = Some (File content)"
    and "action \<in> set actions"
    and "action \<in> set [''add'', ''replace'', ''insert'', ''modify''] \<longrightarrow> new_text \<noteq> None"
    and "action \<in> set [''replace'', ''modify''] \<longrightarrow> old_text \<noteq> None"
    and "parse_line_numbers line_numbers = Some line_number_list"
    and "edit_loop action old_text new_text (readlines (universal_newlines content))
           line_number_list = Completed lines"
    and "entries fs (filepath @ ''.bak'') \<noteq> Some Dir"
    and "entries fs (os_path_dirname filepath) = Some Dir"
  shows "history (fst (edit_line wd fs filename (LineStr line_numbers) action old_text
                         new_text debug))
           = history fs @ [Wrote (filepath @ ''.bak'')
                             (concat (readlines (universal_newlines content))),
                           Wrote filepath (concat lines)] \<and>
         concat (readlines (universal_newlines content)) = universal_newlines content \<and>
         (CHR 0x0D \<notin> set content \<longrightarrow> universal_newlines content = content) \<and>
         entries (fst (edit_line wd fs filename (LineStr line_numbers) action old_text
                         new_text debug)) (filepath @ ''.bak'')
           = Some (File (universal_newlines content))"
  using edit_line_passes [OF assms, of debug]
  by (simp add: concat_readlines universal_newlines_no_cr)

theorem edit_line_backup_before_commit_witness:
  "history (fst (edit_line example_wd example_fs_x ''a.txt'' (LineStr ''1'') ''modify''
                   (Some ''X'') (Some ''X'') True))
     = [Wrote ''/auto_gpt_workspace/a.txt.bak'' ''aXbX\<newline>'',
        Wrote ''/auto_gpt_workspace/a.txt'' ''aXbX\<newline>'']"
proof -
  have 1: "safe_join example_wd [''a.txt''] = Inr ''/auto_gpt_workspace/a.txt''" by code_simp
  have 2: "entries example_fs_x ''/auto_gpt_workspace/a.txt'' = Some (File ''aXbX\<newline>'')"
    by code_simp
  have 3: "''modify'' \<in> set actions" by code_simp
  have 4: "''modify'' \<in> set [''add'', ''replace'', ''insert'', ''modify''] \<longrightarrow> Some ''X'' \<noteq> None"
    by simp
  have 5: "''modify'' \<in> set [''replace'', ''modify''] \<longrightarrow> Some ''X'' \<noteq> None"
    by simp
  have 6: "parse_line_numbers ''1'' = Some [1]" by code_simp
  have 7: "edit_loop ''modify'' (Some ''X'') (Some ''X'')
             (readlines (universal_newlines ''aXbX\<newline>'')) [1]
             = Completed [''aXbX\<newline>'']" by code_simp
  have 8: "entries example_fs_x (''/auto_gpt_workspace/a.txt'' @ ''.bak'') \<noteq> Some Dir"
    by code_simp
  have 9: "entries example_fs_x (os_path_dirname ''/auto_gpt_workspace/a.txt'') = Some Dir"
    by code_simp
  have h: "history example_fs_x = []" by code_simp
  have c: "concat (readlines (universal_newlines ''aXbX\<newline>'')) = ''aXbX\<newline>''"
    by code_simp
  show ?thesis
    using edit_line_backup_before_commit [OF 1 2 3 4 5 6 7 8 9, of True] h
    unfolding c by simp
qed

subsection \<open>The action \<open>modify\<close>\<close>

lemma edit_line_returned:
  assumes p: "safe_join wd [filename] = Inr filepath"
    and f: "entries fs filepath = Some (File content)"
    and a: "action \<in> set actions"
    and n: "action \<in> set [''add'', ''replace'', ''insert'', ''modify''] \<longrightarrow> new_text \<noteq> None"
    and ot: "action \<in> set [''replace'', ''modify''] \<longrightarrow> old_text \<noteq> None"
    and l: "parse_line_numbers line_numbers = Some line_number_list"
    and e: "edit_loop action old_text new_text (readlines (universal_newlines content)) line_number_list
              = Returned msg"
  shows "edit_line wd fs filename (LineStr line_numbers) action old_text new_text debug
           = (fs, Inr msg)"
proof -
  have isf: "os_path_isfile fs filepath" using f by (simp add: os_path_isfile_def)
  have rd: "open_read fs filepath = Inr (universal_newlines content)" using f by (simp add: open_read_def)
  have n': "\<not> (action \<in> set [''add'', ''replace'', ''insert'', ''modify''] \<and> new_text = None)"
    using n by blast
  have ot': "\<not> (action \<in> set [''replace'', ''modify''] \<and> old_text = None)"
    using ot by blast
  show ?thesis
    unfolding edit_line_def Let_def
    by (simp only: p isf a n' ot' l rd e sum.case line_numbers_arg.case option.case
        loop_result.case if_True if_False not_True_eq_False not_not)
qed

text \<open>
  Two laws that determine \<open>str_replace\<close> for a non-empty \<open>old\<close>: a text without an
  occurrence is left alone, and in a text whose first occurrence stands behind \<open>u\<close> that
  occurrence is replaced and the replacing goes on in the rest \<open>v\<close>.
\<close>

lemma str_replace_absent:
  "\<not> sublist old s \<Longrightarrow> str_replace old new s = s"
proof (induction old new s rule: str_replace.induct)
  case (1 old new s)
  have ne: "old \<noteq> []" using "1.prems" by auto
  show ?case
  proof (cases s)
    case Nil
    then show ?thesis using ne by (simp add: str_replace.simps)
  next
    case (Cons c cs)
    have np: "\<not> prefix old s" using "1.prems" by auto
    have "\<not> sublist old (tl s)"
      using "1.prems" Cons by (auto simp: sublist_Cons_right)
    then have "str_replace old new (tl s) = tl s"
      using "1.IH"(2) ne np Cons by simp
    then show ?thesis
      using ne np Cons by (subst str_replace.simps) simp
  qed
qed

lemma prefix_append_short:
  "prefix xs (ys @ zs) \<Longrightarrow> length xs \<le> length ys \<Longrightarrow> prefix xs ys"
  by (auto simp: prefix_append)

lemma str_replace_first_occurrence:
  assumes "old \<noteq> []" and "\<not> sublist old (u @ butlast old)"
  shows "str_replace old new (u @ old @ v) = u @ new @ str_replace old new v"
  using assms(2)
proof (induction u)
  case Nil
  show ?case using assms(1) by (subst str_replace.simps) simp
next
  case (Cons c u)
  have np: "\<not> prefix old (c # u @ old @ v)"
  proof
    assume pr: "prefix old (c # u @ old @ v)"
    have len: "length old \<le> length ((c # u) @ butlast old)" by simp
    have "old @ v = butlast old @ (last old # v)"
      using assms(1) by (metis append.assoc append_butlast_last_id append_Cons append_Nil)
    then have eq: "c # u @ old @ v = ((c # u) @ butlast old) @ (last old # v)"
      by simp
    have "prefix old (((c # u) @ butlast old) @ (last old # v))"
      using pr unfolding eq .
    then have "prefix old ((c # u) @ butlast old)"
      using len by (rule prefix_append_short)
    then show False using Cons.prems by auto
  qed
  have "\<not> sublist old (u @ butlast old)"
    using Cons.prems by (auto simp: sublist_Cons_right)
  then have "str_replace old new (u @ old @ v) = u @ new @ str_replace old new v"
    by (rule Cons.IH)
  then show ?case
    using assms(1) np by (subst str_replace.simps) simp
qed

text \<open>
  From the two laws: when a text is cut into pieces at the occurrences of \<open>old\<close>, each
  occurrence being the first one behind the piece before it and the last piece holding
  none, \<open>str_replace\<close> puts \<open>new\<close> between all the pieces. Every text can be cut so,
  and \<open>old\<close> occurs in it exactly when there are two pieces or more.
\<close>

lemma join_with_Cons:
  "ps \<noteq> [] \<Longrightarrow> join_with sep (p # ps) = p @ sep @ join_with sep ps"
  by (cases ps) simp_all

lemma str_replace_pieces:
  assumes "old \<noteq> []"
  shows "pieces \<noteq> [] \<Longrightarrow>
         \<forall>p\<in>set (butlast pieces). \<not> sublist old (p @ butlast old) \<Longrightarrow>
         \<not> sublist old (last pieces) \<Longrightarrow>
         str_replace old new (join_with old pieces) = join_with new pieces"
proof (induction pieces)
  case Nil
  then show ?case by simp
next
  case step: (Cons p ps)
  show ?case
  proof (cases "ps = []")
    case True
    then show ?thesis using step.prems by (simp add: str_replace_absent)
  next
    case ne: False
    have first: "\<not> sublist old (p @ butlast old)"
      using step.prems(2) ne by simp
    have IH: "str_replace old new (join_with old ps) = join_with new ps"
      using step.IH step.prems ne by simp
    have "join_with old (p # ps) = p @ old @ join_with old ps"
      using ne by (rule join_with_Cons)
    moreover have "join_with new (p # ps) = p @ new @ join_with new ps"
      using ne by (rule join_with_Cons)
    ultimately show ?thesis
      using str_replace_first_occurrence [OF assms first, of new "join_with old ps"] IH
      by simp
  qed
qed

lemma first_occurrence_exists:
  assumes "old \<noteq> []"
  shows "sublist old s \<Longrightarrow> \<exists>u v. s = u @ old @ v \<and> \<not> sublist old (u @ butlast old)"
proof (induction s)
  case Nil
  then show ?case using assms by simp
next
  case (Cons c cs)
  have short: "\<not> sublist old (butlast old)"
  proof
    assume "sublist old (butlast old)"
    then have "length old \<le> length (butlast old)" by (rule sublist_length_le)
    moreover have "length (butlast old) = length old - 1" by simp
    moreover have "0 < length old" using assms by simp
    ultimately show False by linarith
  qed
  show ?case
  proof (cases "prefix old (c # cs)")
    case True
    then obtain v where "c # cs = old @ v" by (auto simp: prefix_def)
    then have "c # cs = [] @ old @ v \<and> \<not> sublist old ([] @ butlast old)"
      using short by simp
    then show ?thesis by blast
  next
    case False
    then have "sublist old cs"
      using Cons.prems by (simp add: sublist_Cons_right)
    then obtain u v where uv: "cs = u @ old @ v" "\<not> sublist old (u @ butlast old)"
      using Cons.IH by blast
    have "\<not> prefix old (c # u @ butlast old)"
    proof
      assume "prefix old (c # u @ butlast old)"
      moreover have "old @ v = butlast old @ (last old # v)"
        using assms by (metis append.assoc append_butlast_last_id append_Cons append_Nil)
      then have "c # u @ old @ v = (c # u @ butlast old) @ (last old # v)"
        by simp
      then have "prefix (c # u @ butlast old) (c # u @ old @ v)"
        unfolding prefix_def by blast
      ultimately have "prefix old (c # cs)" unfolding uv(1) by (rule prefix_order.trans)
      then show False using False by simp
    qed
    then have "\<not> sublist old ((c # u) @ butlast old)"
      using uv(2) by (simp add: sublist_Cons_right)
    moreover have "c # cs = (c # u) @ old @ v" using uv(1) by simp
    ultimately show ?thesis by blast
  qed
qed

lemma greedy_split_exists:
  assumes "old \<noteq> []"
  shows "\<exists>pieces. pieces \<noteq> [] \<and> s = join_with old pieces \<and>
           (\<forall>p\<in>set (butlast pieces). \<not> sublist old (p @ butlast old)) \<and>
           \<not> sublist old (last pieces) \<and>
           (sublist old s \<longleftrightarrow> 2 \<le> length pieces)"
proof (induction "length s" arbitrary: s rule: less_induct)
  case less
  show ?case
  proof (cases "sublist old s")
    case False
    then have "[s] \<noteq> [] \<and> s = join_with old [s] \<and>
           (\<forall>p\<in>set (butlast [s]). \<not> sublist old (p @ butlast old)) \<and>
           \<not> sublist old (last [s]) \<and> (sublist old s \<longleftrightarrow> 2 \<le> length [s])"
      by simp
    then show ?thesis by blast
  next
    case True
    then obtain u v where uv: "s = u @ old @ v" "\<not> sublist old (u @ butlast old)"
      using first_occurrence_exists [OF assms] by blast
    have "length v < length s" using uv(1) assms by simp
    from less [OF this] obtain ps where ps: "ps \<noteq> []" "v = join_with old ps"
      "\<forall>p\<in>set (butlast ps). \<not> sublist old (p @ butlast old)" "\<not> sublist old (last ps)"
      by blast
    have "u # ps \<noteq> [] \<and> s = join_with old (u # ps) \<and>
           (\<forall>p\<in>set (butlast (u # ps)). \<not> sublist old (p @ butlast old)) \<and>
           \<not> sublist old (last (u # ps)) \<and> (sublist old s \<longleftrightarrow> 2 \<le> length (u # ps))"
      using ps uv True by (cases ps) (simp_all add: join_with_Cons)
    then show ?thesis by blast
  qed
qed

lemma edit_loop_modify_step:
  assumes act: "action \<in> set [''replace'', ''modify'']"
    and pre: "edit_loop action (Some old_text) (Some new_text) start before = Completed lines"
    and rng: "1 \<le> line_number" "line_number \<le> int (length lines)"
  shows "edit_loop action (Some old_text) (Some new_text) start (before @ line_number # rest) =
           (if \<not> sublist old_text (lines ! nat (line_number - 1))
            then Returned (''Error: old_text '' @ quoted old_text @ '' not found on line ''
                             @ str_int line_number @ '' ''
                             @ quoted (lines ! nat (line_number - 1)) @ ''.'')
            else edit_loop action (Some old_text) (Some new_text)
                   (lines[nat (line_number - 1) :=
                            str_replace old_text new_text (lines ! nat (line_number - 1))])
                   rest)"
proof -
  have na: "action \<notin> set [''add'', ''insert'']" using act by auto
  have r: "\<not> (line_number < 1 \<or> line_number > int (length lines))"
    using rng by simp
  show ?thesis
    using act pre na r by (simp add: edit_loop_append del: set_simps)
qed

text \<open>
  C8 (as amended): in a call with the action \<open>modify\<close> (or \<open>replace\<close>), let
  \<open>lines\<close> be the lines as the loop has them when it comes to \<open>line_number\<close>, a
  number in range. When \<open>old_text\<close> does not occur in the target line, \<open>edit_line\<close>
  returns the error that the old text was not found and writes nothing. When a non-empty
  \<open>old_text\<close> occurs, the target line being the pieces \<open>p0, ..., pm\<close> with
  \<open>old_text\<close> between them (each occurrence the first one behind the piece before it,
  none left in \<open>pm\<close>), the loop goes on with the line \<open>p0 new_text p1 ... new_text pm\<close>:
  every one of the \<open>m\<close> occurrences is replaced, not the first one only, and the file
  is written with the lines that the loop ends with. Every target line is such a sequence
  of pieces, with two pieces or more exactly when \<open>old_text\<close> occurs in it. An empty
  \<open>old_text\<close> occurs in every line, and \<open>new_text\<close> is put before every character
  of the line and at its end.
\<close>

theorem edit_line_modify_replaces_every_occurrence:
  assumes p: "safe_join wd [filename] = Inr filepath"
    and f: "entries fs filepath = Some (File content)"
    and act: "action \<in> set [''replace'', ''modify'']"
    and spec: "parse_line_numbers line_numbers = Some (before @ line_number # rest)"
    and pre: "edit_loop action (Some old_text) (Some new_text)
                (readlines (universal_newlines content)) before = Completed lines"
    and rng: "1 \<le> line_number" "line_number \<le> int (length lines)"
  shows
    "(\<not> sublist old_text (lines ! nat (line_number - 1)) \<longrightarrow>
        edit_line wd fs filename (LineStr line_numbers) action (Some old_text) (Some new_text)
            debug
          = (fs, Inr (''Error: old_text '' @ quoted old_text @ '' not found on line ''
                        @ str_int line_number @ '' ''
                        @ quoted (lines ! nat (line_number - 1)) @ ''.''))) \<and>
     (old_text \<noteq> [] \<and> 2 \<le> length pieces \<and>
      lines ! nat (line_number - 1) = join_with old_text pieces \<and>
      (\<forall>piece\<in>set (butlast pieces). \<not> sublist old_text (piece @ butlast old_text)) \<and>
      \<not> sublist old_text (last pieces) \<and>
      edit_loop action (Some old_text) (Some new_text)
          (lines[nat (line_number - 1) := join_with new_text pieces]) rest = Completed final \<and>
      entries fs (filepath @ ''.bak'') \<noteq> Some Dir \<and>
      entries fs (os_path_dirname filepath) = Some Dir \<longrightarrow>
        entries (fst (edit_line wd fs filename (LineStr line_numbers) action (Some old_text)
                        (Some new_text) debug)) filepath
          = Some (File (concat final))) \<and>
     (old_text = [] \<and>
      edit_loop action (Some old_text) (Some new_text)
          (lines[nat (line_number - 1) :=
                   new_text @ concat (map (\<lambda>c. c # new_text) (lines ! nat (line_number - 1)))])
          rest = Completed final \<and>
      entries fs (filepath @ ''.bak'') \<noteq> Some Dir \<and>
      entries fs (os_path_dirname filepath) = Some Dir \<longrightarrow>
        entries (fst (edit_line wd fs filename (LineStr line_numbers) action (Some old_text)
                        (Some new_text) debug)) filepath
          = Some (File (concat final))) \<and>
     (old_text \<noteq> [] \<longrightarrow>
        (\<exists>ps. ps \<noteq> [] \<and> lines ! nat (line_number - 1) = join_with old_text ps \<and>
              (\<forall>piece\<in>set (butlast ps). \<not> sublist old_text (piece @ butlast old_text)) \<and>
              \<not> sublist old_text (last ps) \<and>
              (sublist old_text (lines ! nat (line_number - 1)) \<longleftrightarrow> 2 \<le> length ps)))"
proof (intro conjI impI)
  let ?target = "lines ! nat (line_number - 1)"
  let ?call = "edit_line wd fs filename (LineStr line_numbers) action (Some old_text)
                 (Some new_text) debug"
  have a: "action \<in> set actions" using act by (auto simp: actions_def)
  note step = edit_loop_modify_step [OF act pre rng, of rest]
  {
    assume ns: "\<not> sublist old_text ?target"
    have "edit_loop action (Some old_text) (Some new_text)
            (readlines (universal_newlines content)) (before @ line_number # rest)
          = Returned (''Error: old_text '' @ quoted old_text @ '' not found on line ''
                        @ str_int line_number @ '' '' @ quoted ?target @ ''.'')"
      using step ns by simp
    from edit_line_returned [OF p f a _ _ spec this]
    show "?call = (fs, Inr (''Error: old_text '' @ quoted old_text @ '' not found on line ''
                        @ str_int line_number @ '' '' @ quoted ?target @ ''.''))"
      by simp
  }
  {
    assume h: "old_text \<noteq> [] \<and> 2 \<le> length pieces \<and>
      ?target = join_with old_text pieces \<and>
      (\<forall>piece\<in>set (butlast pieces). \<not> sublist old_text (piece @ butlast old_text)) \<and>
      \<not> sublist old_text (last pieces) \<and>
      edit_loop action (Some old_text) (Some new_text)
          (lines[nat (line_number - 1) := join_with new_text pieces]) rest = Completed final \<and>
      entries fs (filepath @ ''.bak'') \<noteq> Some Dir \<and>
      entries fs (os_path_dirname filepath) = Some Dir"
    then have len: "2 \<le> length pieces" by blast
    then obtain piece ps where ps1: "pieces = piece # ps"
      by (cases pieces) auto
    have ps2: "ps \<noteq> []" using len ps1 by auto
    note ps = ps1 ps2
    have "?target = piece @ old_text @ join_with old_text ps"
      using h ps by (simp add: join_with_Cons)
    then have found: "sublist old_text ?target" by simp
    have "str_replace old_text new_text (join_with old_text pieces) = join_with new_text pieces"
      using h ps(1) by (intro str_replace_pieces) auto
    then have "str_replace old_text new_text ?target = join_with new_text pieces"
      using h by simp
    then have "edit_loop action (Some old_text) (Some new_text)
            (readlines (universal_newlines content)) (before @ line_number # rest)
          = Completed final"
      using step found h by simp
    from edit_line_passes [OF p f a _ _ spec this, of debug] h
    show "entries (fst ?call) filepath = Some (File (concat final))"
      by simp
  }
  {
    assume h: "old_text = [] \<and>
      edit_loop action (Some old_text) (Some new_text)
          (lines[nat (line_number - 1) :=
                   new_text @ concat (map (\<lambda>c. c # new_text) ?target)])
          rest = Completed final \<and>
      entries fs (filepath @ ''.bak'') \<noteq> Some Dir \<and>
      entries fs (os_path_dirname filepath) = Some Dir"
    then have e: "old_text = []"
      and l: "edit_loop action (Some old_text) (Some new_text)
          (lines[nat (line_number - 1) :=
                   new_text @ concat (map (\<lambda>c. c # new_text) ?target)])
          rest = Completed final"
      by blast+
    have r: "str_replace old_text new_text ?target
            = new_text @ concat (map (\<lambda>c. c # new_text) ?target)"
      using e by (subst str_replace.simps) simp
    have found: "sublist old_text ?target" using e by simp
    have "edit_loop action (Some old_text) (Some new_text)
            (readlines (universal_newlines content)) (before @ line_number # rest)
          = Completed final"
      using step found unfolding r l by simp
    from edit_line_passes [OF p f a _ _ spec this, of debug] h
    show "entries (fst ?call) filepath = Some (File (concat final))"
      by simp
  }
  {
    assume "old_text \<noteq> []"
    from greedy_split_exists [OF this, of ?target]
    show "\<exists>ps. ps \<noteq> [] \<and> ?target = join_with old_text ps \<and>
              (\<forall>piece\<in>set (butlast ps). \<not> sublist old_text (piece @ butlast old_text)) \<and>
              \<not> sublist old_text (last ps) \<and>
              (sublist old_text ?target \<longleftrightarrow> 2 \<le> length ps)"
      by blast
  }
qed

theorem edit_line_modify_replaces_every_occurrence_witness:
  "entries (fst (edit_line example_wd example_fs_x ''a.txt'' (LineStr ''1'') ''modify''
                   (Some ''X'') (Some ''Y'') True)) ''/auto_gpt_workspace/a.txt''
     = Some (File ''aYbY\<newline>'') \<and>
   edit_line example_wd example_fs_x ''a.txt'' (LineStr ''1'') ''modify'' (Some ''Z'') (Some ''Y'')
       True
     = (example_fs_x, Inr (''Error: old_text '' @ quoted ''Z'' @ '' not found on line 1 ''
                             @ quoted ''aXbX\<newline>'' @ ''.''))"
proof -
  let ?lines = "[''aXbX\<newline>'']"
  let ?pieces = "[''a'', ''b'', ''\<newline>'']"
  let ?final = "[''aYbY\<newline>'']"
  have 1: "safe_join example_wd [''a.txt''] = Inr ''/auto_gpt_workspace/a.txt''" by code_simp
  have 2: "entries example_fs_x ''/auto_gpt_workspace/a.txt'' = Some (File ''aXbX\<newline>'')"
    by code_simp
  have 3: "''modify'' \<in> set [''replace'', ''modify'']" by simp
  have 4: "parse_line_numbers ''1'' = Some ([] @ 1 # [])" by code_simp
  have 5: "edit_loop ''modify'' (Some ''X'') (Some ''Y'')
             (readlines (universal_newlines ''aXbX\<newline>'')) [] = Completed ?lines"
    by code_simp
  have five: "edit_loop ''modify'' (Some ''Z'') (Some ''Y'')
             (readlines (universal_newlines ''aXbX\<newline>'')) [] = Completed ?lines"
    by code_simp
  have 6: "(1::int) \<le> 1" by simp
  have 7: "(1::int) \<le> int (length ?lines)" by simp
  have found:
    "''X'' \<noteq> [] \<and> 2 \<le> length ?pieces \<and>
     ?lines ! nat (1 - 1) = join_with ''X'' ?pieces \<and>
     (\<forall>piece\<in>set (butlast ?pieces). \<not> sublist ''X'' (piece @ butlast ''X'')) \<and>
     \<not> sublist ''X'' (last ?pieces) \<and>
     edit_loop ''modify'' (Some ''X'') (Some ''Y'')
       (?lines[nat (1 - 1) := join_with ''Y'' ?pieces]) [] = Completed ?final \<and>
     entries example_fs_x (''/auto_gpt_workspace/a.txt'' @ ''.bak'') \<noteq> Some Dir \<and>
     entries example_fs_x (os_path_dirname ''/auto_gpt_workspace/a.txt'') = Some Dir"
    by code_simp
  have absent: "\<not> sublist ''Z'' (?lines ! nat (1 - 1))" by code_simp
  have l: "?lines ! nat (1 - 1) = ''aXbX\<newline>''" by simp
  have i: "str_int 1 = ''1''" by code_simp
  have c: "concat ?final = ''aYbY\<newline>''" by simp
  note found_case = edit_line_modify_replaces_every_occurrence [OF 1 2 3 4 5 6 7,
      where pieces = ?pieces and final = ?final and debug = True,
      THEN conjunct2, THEN conjunct1, rule_format]
  have a: "entries (fst (edit_line example_wd example_fs_x ''a.txt'' (LineStr ''1'') ''modify''
                   (Some ''X'') (Some ''Y'') True)) ''/auto_gpt_workspace/a.txt''
     = Some (File ''aYbY\<newline>'')"
    using found_case [OF found] unfolding c .
  note absent_case = edit_line_modify_replaces_every_occurrence [OF 1 2 3 4 five 6 7,
      where debug = True, THEN conjunct1, rule_format]
  have b: "edit_line example_wd example_fs_x ''a.txt'' (LineStr ''1'') ''modify'' (Some ''Z'')
       (Some ''Y'') True
     = (example_fs_x, Inr (''Error: old_text '' @ quoted ''Z'' @ '' not found on line 1 ''
                             @ quoted ''aXbX\<newline>'' @ ''.''))"
    using absent_case [OF absent] unfolding l i by simp
  from a b show ?thesis by blast
qed

text \<open>
  C8 as stated fails: in the line \<open>aXbX\<close> the action \<open>modify\<close> with \<open>X\<close> and
  \<open>Y\<close> replaces both occurrences; the file then holds \<open>aYbY\<close>, not \<open>aYbX\<close>.
\<close>

theorem edit_line_modify_first_only_counterexample:
  "entries (fst (edit_line example_wd example_fs_x ''a.txt'' (LineStr ''1'') ''modify''
                   (Some ''X'') (Some ''Y'') False)) ''/auto_gpt_workspace/a.txt''
     = Some (File ''aYbY\<newline>'') \<and>
   snd (edit_line example_wd example_fs_x ''a.txt'' (LineStr ''1'') ''modify''
          (Some ''X'') (Some ''Y'') False)
     = Inr ''File: a.txt, Action: Modify, Result: Success.''"
  by code_simp

subsection \<open>The report of \<open>edit_line\<close>\<close>

text \<open>
  With \<open>debug\<close> set, whatever \<open>edit_line\<close> returns is an error message of the
  checks or of the loop: a call that gets as far as the report raises \<open>NameError\<close>.
\<close>

lemma edit_loop_returned_is_error:
  "edit_loop action old_text new_text lines line_numbers = Returned msg \<Longrightarrow>
     prefix ''Error: '' msg"
proof (induction line_numbers arbitrary: lines)
  case Nil
  then show ?case by simp
next
  case (Cons x xs)
  show ?case
  proof (cases "x < 1 \<or> x > int (length lines)")
    case True
    then show ?thesis using Cons.prems by (auto simp del: set_simps)
  next
    case inrange: False
    show ?thesis
    proof (cases "action \<in> set [''add'', ''insert'']")
      case True
      then show ?thesis
        using inrange Cons.prems Cons.IH
        by (cases new_text) (auto simp del: set_simps)
    next
      case notadd: False
      show ?thesis
      proof (cases "action \<in> set [''replace'', ''modify'']")
        case True
        then show ?thesis
          using inrange notadd Cons.prems Cons.IH
          by (cases old_text; cases new_text) (auto simp del: set_simps split: if_splits)
      next
        case False
        then show ?thesis
          using inrange notadd Cons.prems Cons.IH
          by (cases "action = ''delete''") (auto simp del: set_simps)
      qed
    qed
  qed
qed

lemma edit_line_debug_no_summary:
  "edit_line wd fs filename line_numbers action old_text new_text True = (fs', Inr msg) \<Longrightarrow>
     prefix ''Error: '' msg \<and> fs' = fs"
  unfolding edit_line_def Let_def
  by (simp split: sum.splits if_splits line_numbers_arg.splits option.splits loop_result.splits
      del: set_simps) (auto simp del: set_simps dest: edit_loop_returned_is_error)

text \<open>
  C10 fails on the code: inserting \<open>X\<close> before line 2 of a file of three lines with
  \<open>debug\<close> set (the default) writes the new content and then raises \<open>NameError\<close>
  where the diff is computed, so that no summary is returned. Without \<open>debug\<close> the
  same call returns the summary.
\<close>

theorem edit_line_debug_raises_example:
  "snd (edit_line example_wd example_fs_abc ''a.txt'' (LineStr ''2'') ''insert'' None
          (Some ''X'') True) = Inl (NameError ''difflib'') \<and>
   entries (fst (edit_line example_wd example_fs_abc ''a.txt'' (LineStr ''2'') ''insert'' None
                   (Some ''X'') True)) ''/auto_gpt_workspace/a.txt''
     = Some (File ''a\<newline>X\<newline>b\<newline>c\<newline>'') \<and>
   snd (edit_line example_wd example_fs_abc ''a.txt'' (LineStr ''2'') ''insert'' None
          (Some ''X'') False) = Inr ''File: a.txt, Action: Insert, Result: Success.''"
  by code_simp

subsection \<open>What one call of \<open>log_operation\<close> adds to the log\<close>

text \<open>
  With room for four nested calls or more, the entry is followed in the log by at least
  one line \<open>append: file_logger.txt\<close>, written by the \<open>append_to_file\<close> that
  \<open>log_operation\<close> calls.
\<close>

lemma log_operation_appends_more:
  assumes h: "safe_join wd [LOG_FILE] = Inr (LOG_FILE_PATH wd)"
    and f: "entries fs (LOG_FILE_PATH wd) = Some (File c)"
  shows "\<exists>t. entries (fst (log_operation (Suc (Suc (Suc (Suc depth)))) wd fs operation filename))
               (LOG_FILE_PATH wd)
             = Some (File (c @ (operation @ '': '' @ filename @ ''\<newline>'')
                             @ ''append: file_logger.txt\<newline>'' @ t))"
proof -
  let ?entry = "operation @ '': '' @ filename @ ''\<newline>''"
  define fs1 where "fs1 = fs\<lparr>entries := (entries fs)(LOG_FILE_PATH wd \<mapsto> File (c @ ?entry)),
                     history := history fs @ [Appended (LOG_FILE_PATH wd) ?entry]\<rparr>"
  have o: "open_append fs (LOG_FILE_PATH wd) ?entry = Inr fs1"
    using f by (simp add: open_append_def fs1_def)
  have f1: "entries fs1 (LOG_FILE_PATH wd) = Some (File (c @ ?entry))"
    by (simp add: fs1_def)
  have ex: "os_path_exists fs (LOG_FILE_PATH wd)" "os_path_exists fs1 (LOG_FILE_PATH wd)"
    using f f1 by (simp_all add: os_path_exists_def)
  from append_to_file_log_entry [OF h f1, of depth "''append: file_logger.txt\<newline>''"]
  obtain t where t: "entries (fst (append_to_file (Suc depth) wd fs1 LOG_FILE
                       ''append: file_logger.txt\<newline>'')) (LOG_FILE_PATH wd)
                     = Some (File ((c @ ?entry) @ ''append: file_logger.txt\<newline>'' @ t))"
    by blast
  have l2: "fst (log_operation (Suc (Suc depth)) wd fs1 ''append'' LOG_FILE)
          = fst (append_to_file (Suc depth) wd fs1 LOG_FILE ''append: file_logger.txt\<newline>'')"
    using ex(2) by (simp add: LOG_FILE_def split: prod.splits sum.splits del: append_to_file.simps)
  have a3: "fst (append_to_file (Suc (Suc (Suc depth))) wd fs LOG_FILE ?entry)
          = fst (log_operation (Suc (Suc depth)) wd fs1 ''append'' LOG_FILE)"
    using h o by (simp split: prod.splits sum.splits del: log_operation.simps)
  have l4: "fst (log_operation (Suc (Suc (Suc (Suc depth)))) wd fs operation filename)
          = fst (append_to_file (Suc (Suc (Suc depth))) wd fs LOG_FILE ?entry)"
    using ex(1) by (simp split: prod.splits sum.splits del: append_to_file.simps)
  show ?thesis
    unfolding l4 a3 l2 using t by auto
qed

text \<open>
  C7 fails on the code: \<open>log_operation("write", "a.txt")\<close> in an empty workspace, with
  room for six nested calls, returns and leaves a log that holds the header, the entry
  and two more lines \<open>append: file_logger.txt\<close>.
\<close>

theorem log_operation_logs_itself_example:
  "entries (fst (log_operation 6 example_wd example_fs ''write'' ''a.txt''))
       (LOG_FILE_PATH example_wd)
     = Some (File (''File Operation Logger '' @ ''write: a.txt\<newline>''
                     @ ''append: file_logger.txt\<newline>'' @ ''append: file_logger.txt\<newline>'')) \<and>
   snd (log_operation 6 example_wd example_fs ''write'' ''a.txt'') = Inr ()"
  by code_simp

end
